theory Spec2Isabelle
  imports Main "HOL-Library.Word" "HOL-Library.Monad_Syntax"
begin

unbundle bit_operations_syntax

section \<open>Data model\<close>

text \<open>
  Go's \<open>byte\<close> is an unsigned 8-bit integer, \<open>int32\<close> and \<open>int16\<close> are two's complement
  words of 32 and 16 bits. Words wrap around; \<open>uint\<close> reads a word as unsigned and
  \<open>sint\<close> as signed.
\<close>

type_synonym byte = "8 word"
type_synonym int32 = "32 word"
type_synonym int16 = "16 word"
type_synonym uint16 = "16 word"

text \<open>
  Go \<open>error\<close> values. \<open>RetryError\<close> is the package-level sentinel of \<open>stadia.go\<close>
  (compared by identity with \<open>errors.Is\<close>); \<open>ErrorNew\<close> and \<open>Errorf\<close> carry the
  message of \<open>errors.New\<close> and \<open>fmt.Errorf\<close>; \<open>Errno\<close> stands for an error
  handed over by the platform.
\<close>

datatype error = RetryError | ErrorNew string | Errorf string | Errno nat

text \<open>
  The C struct \<open>xusb_report\<close> behind \<open>Xbox360ControllerReport.native\<close>; its fields and
  their widths are the ones the accessors of \<open>vigem.go\<close> cast to.
\<close>

record xusb_report =
  wButtons :: uint16
  bLeftTrigger :: byte
  bRightTrigger :: byte
  sThumbLX :: int16
  sThumbLY :: int16
  sThumbRX :: int16
  sThumbRY :: int16

record Xbox360ControllerReport =
  native :: xusb_report
  Capture :: bool
  Assistant :: bool

text \<open>The zero value \<open>Xbox360ControllerReport{}\<close>.\<close>

definition zero_report :: Xbox360ControllerReport where
  "zero_report =
     \<lparr>native = \<lparr>wButtons = 0, bLeftTrigger = 0, bRightTrigger = 0,
                 sThumbLX = 0, sThumbLY = 0, sThumbRX = 0, sThumbRY = 0\<rparr>,
      Capture = False, Assistant = False\<rparr>"

subsection \<open>Button bits (\<open>vigem.go\<close>)\<close>

definition Xbox360ControllerButtonUp :: nat where "Xbox360ControllerButtonUp = 0"
definition Xbox360ControllerButtonDown :: nat where "Xbox360ControllerButtonDown = 1"
definition Xbox360ControllerButtonLeft :: nat where "Xbox360ControllerButtonLeft = 2"
definition Xbox360ControllerButtonRight :: nat where "Xbox360ControllerButtonRight = 3"
definition Xbox360ControllerButtonStart :: nat where "Xbox360ControllerButtonStart = 4"
definition Xbox360ControllerButtonBack :: nat where "Xbox360ControllerButtonBack = 5"
definition Xbox360ControllerButtonLeftThumb :: nat where "Xbox360ControllerButtonLeftThumb = 6"
definition Xbox360ControllerButtonRightThumb :: nat where "Xbox360ControllerButtonRightThumb = 7"
definition Xbox360ControllerButtonLeftShoulder :: nat where "Xbox360ControllerButtonLeftShoulder = 8"
definition Xbox360ControllerButtonRightShoulder :: nat where "Xbox360ControllerButtonRightShoulder = 9"
definition Xbox360ControllerButtonGuide :: nat where "Xbox360ControllerButtonGuide = 10"
definition Xbox360ControllerButtonA :: nat where "Xbox360ControllerButtonA = 12"
definition Xbox360ControllerButtonB :: nat where "Xbox360ControllerButtonB = 13"
definition Xbox360ControllerButtonX :: nat where "Xbox360ControllerButtonX = 14"
definition Xbox360ControllerButtonY :: nat where "Xbox360ControllerButtonY = 15"

lemmas button_defs =
  Xbox360ControllerButtonUp_def Xbox360ControllerButtonDown_def
  Xbox360ControllerButtonLeft_def Xbox360ControllerButtonRight_def
  Xbox360ControllerButtonStart_def Xbox360ControllerButtonBack_def
  Xbox360ControllerButtonLeftThumb_def Xbox360ControllerButtonRightThumb_def
  Xbox360ControllerButtonLeftShoulder_def Xbox360ControllerButtonRightShoulder_def
  Xbox360ControllerButtonGuide_def Xbox360ControllerButtonA_def
  Xbox360ControllerButtonB_def Xbox360ControllerButtonX_def
  Xbox360ControllerButtonY_def

subsection \<open>Report accessors (\<open>vigem.go\<close>)\<close>

definition GetButtons :: "Xbox360ControllerReport \<Rightarrow> uint16" where
  "GetButtons r = wButtons (native r)"

text \<open>\<open>r.native.wButtons |= 1 << shiftBy\<close>, the shift taken in \<open>uint16\<close>.\<close>

definition SetButton :: "Xbox360ControllerReport \<Rightarrow> nat \<Rightarrow> Xbox360ControllerReport" where
  "SetButton r shiftBy =
     r\<lparr>native := (native r)\<lparr>wButtons := wButtons (native r) OR push_bit shiftBy 1\<rparr>\<rparr>"

definition MaybeSetButton ::
  "Xbox360ControllerReport \<Rightarrow> nat \<Rightarrow> bool \<Rightarrow> Xbox360ControllerReport" where
  "MaybeSetButton r shiftBy isSet = (if isSet then SetButton r shiftBy else r)"

definition SetLeftTrigger :: "Xbox360ControllerReport \<Rightarrow> byte \<Rightarrow> Xbox360ControllerReport" where
  "SetLeftTrigger r v = r\<lparr>native := (native r)\<lparr>bLeftTrigger := v\<rparr>\<rparr>"

definition SetRightTrigger :: "Xbox360ControllerReport \<Rightarrow> byte \<Rightarrow> Xbox360ControllerReport" where
  "SetRightTrigger r v = r\<lparr>native := (native r)\<lparr>bRightTrigger := v\<rparr>\<rparr>"

definition SetLeftThumb ::
  "Xbox360ControllerReport \<Rightarrow> int16 \<Rightarrow> int16 \<Rightarrow> Xbox360ControllerReport" where
  "SetLeftThumb r x y = r\<lparr>native := (native r)\<lparr>sThumbLX := x, sThumbLY := y\<rparr>\<rparr>"

definition SetRightThumb ::
  "Xbox360ControllerReport \<Rightarrow> int16 \<Rightarrow> int16 \<Rightarrow> Xbox360ControllerReport" where
  "SetRightThumb r x y = r\<lparr>native := (native r)\<lparr>sThumbRX := x, sThumbRY := y\<rparr>\<rparr>"

definition GetLeftThumb :: "Xbox360ControllerReport \<Rightarrow> int16 \<times> int16" where
  "GetLeftThumb r = (sThumbLX (native r), sThumbLY (native r))"

definition GetRightThumb :: "Xbox360ControllerReport \<Rightarrow> int16 \<times> int16" where
  "GetRightThumb r = (sThumbRX (native r), sThumbRY (native r))"

definition GetLeftTrigger :: "Xbox360ControllerReport \<Rightarrow> byte" where
  "GetLeftTrigger r = bLeftTrigger (native r)"

definition GetRightTrigger :: "Xbox360ControllerReport \<Rightarrow> byte" where
  "GetRightTrigger r = bRightTrigger (native r)"

section \<open>The report codec (\<open>stadia.go\<close>)\<close>

text \<open>
  \<open>convertAxisValue\<close>: the byte is widened to \<open>int32\<close> without sign extension, then
  \<open>value<<8 | ((value << 1) & 0b1111)\<close>, then the test against \<open>0xfffe\<close>.
\<close>

definition convertAxisValue :: "byte \<Rightarrow> int32" where
  "convertAxisValue byteValue =
     (let v = (ucast byteValue :: int32);
          v = push_bit 8 v OR (push_bit 1 v AND 0b1111)
      in if v = 0xfffe then 0xffff else v)"

text \<open>
  Indexing a slice panics in Go when the index is out of range. A panic is the value
  \<open>None\<close> of the model, so that a function that cannot panic is one that never
  returns \<open>None\<close>.
\<close>

definition index :: "'a list \<Rightarrow> nat \<Rightarrow> 'a option" where
  "index xs i = (if i < length xs then Some (xs ! i) else None)"

text \<open>
  The loop \<open>for i := 4; i < 8; i++\<close> of \<open>ParseReport\<close>, which writes the decremented
  byte back into the slice it was given.
\<close>

function normalize_axes :: "nat \<Rightarrow> byte list \<Rightarrow> byte list option" where
  "normalize_axes i data =
     (if i < 8 then
        (case index data i of
           None \<Rightarrow> None
         | Some v \<Rightarrow>
             if v \<le> 0x7F \<and> v > 0x00
             then normalize_axes (i + 1) (data[i := v - 1])
             else normalize_axes (i + 1) data)
      else Some data)"
  by pat_completeness auto
termination
  by (relation "measure (\<lambda>(i, data). 8 - i)") auto

declare normalize_axes.simps [simp del]

text \<open>The \<open>switch a\<close> on the D-pad byte; a value above 7 matches no case.\<close>

definition dpad :: "byte \<Rightarrow> Xbox360ControllerReport \<Rightarrow> Xbox360ControllerReport" where
  "dpad a report =
     (if a = 0 then SetButton report Xbox360ControllerButtonUp
      else if a = 1 then
        SetButton (SetButton report Xbox360ControllerButtonUp) Xbox360ControllerButtonRight
      else if a = 2 then SetButton report Xbox360ControllerButtonRight
      else if a = 3 then
        SetButton (SetButton report Xbox360ControllerButtonRight) Xbox360ControllerButtonDown
      else if a = 4 then SetButton report Xbox360ControllerButtonDown
      else if a = 5 then
        SetButton (SetButton report Xbox360ControllerButtonDown) Xbox360ControllerButtonLeft
      else if a = 6 then SetButton report Xbox360ControllerButtonLeft
      else if a = 7 then
        SetButton (SetButton report Xbox360ControllerButtonLeft) Xbox360ControllerButtonUp
      else report)"

text \<open>The eleven \<open>MaybeSetButton\<close> calls and the two flag assignments, in source order.\<close>

definition common_buttons ::
  "byte \<Rightarrow> byte \<Rightarrow> Xbox360ControllerReport \<Rightarrow> Xbox360ControllerReport" where
  "common_buttons b c report =
     (let report = MaybeSetButton report Xbox360ControllerButtonA (c AND 0b01000000 \<noteq> 0);
          report = MaybeSetButton report Xbox360ControllerButtonB (c AND 0b00100000 \<noteq> 0);
          report = MaybeSetButton report Xbox360ControllerButtonX (c AND 0b00010000 \<noteq> 0);
          report = MaybeSetButton report Xbox360ControllerButtonY (c AND 0b00001000 \<noteq> 0);
          report = MaybeSetButton report Xbox360ControllerButtonLeftShoulder (c AND 0b00000100 \<noteq> 0);
          report = MaybeSetButton report Xbox360ControllerButtonRightShoulder (c AND 0b00000010 \<noteq> 0);
          report = MaybeSetButton report Xbox360ControllerButtonLeftThumb (c AND 0b00000001 \<noteq> 0);
          report = MaybeSetButton report Xbox360ControllerButtonRightThumb (b AND 0b10000000 \<noteq> 0);
          report = MaybeSetButton report Xbox360ControllerButtonBack (b AND 0b01000000 \<noteq> 0);
          report = MaybeSetButton report Xbox360ControllerButtonStart (b AND 0b00100000 \<noteq> 0);
          report = MaybeSetButton report Xbox360ControllerButtonGuide (b AND 0b00010000 \<noteq> 0)
      in report\<lparr>Assistant := (b AND 0b00000010 \<noteq> 0), Capture := (b AND 0b00000001 \<noteq> 0)\<rparr>)"

text \<open>
  The axis part: the four reads after the loop, the two offsets, the two tests against
  \<open>-1\<close>, the conversions to \<open>int16\<close> (which keep the low 16 bits) and the triggers.
\<close>

definition set_axes ::
  "byte list \<Rightarrow> Xbox360ControllerReport \<Rightarrow> Xbox360ControllerReport option" where
  "set_axes data report = do {
     d4 \<leftarrow> index data 4;
     d5 \<leftarrow> index data 5;
     d6 \<leftarrow> index data 6;
     d7 \<leftarrow> index data 7;
     let lThumbX = convertAxisValue d4 - 0x8000;
     let lThumbY = - convertAxisValue d5 + 0x7fff;
     let rThumbX = convertAxisValue d6 - 0x8000;
     let rThumbY = - convertAxisValue d7 + 0x7fff;
     let lThumbY = (if lThumbY = - 1 then 0 else lThumbY);
     let rThumbY = (if rThumbY = - 1 then 0 else rThumbY);
     let report = SetLeftThumb report (ucast lThumbX) (ucast lThumbY);
     let report = SetRightThumb report (ucast rThumbX) (ucast rThumbY);
     d8 \<leftarrow> index data 8;
     let report = SetLeftTrigger report d8;
     d9 \<leftarrow> index data 9;
     let report = SetRightTrigger report d9;
     Some report
   }"

subsection \<open>The diagnostic encoding of an unknown report\<close>

text \<open>
  \<open>base64.StdEncoding.EncodeToString\<close> of Go's standard library (RFC 4648, with
  padding): three bytes at a time are packed into 24 bits that are read as four indices
  into the alphabet; a rest of one or two bytes is padded with \<open>=\<close>. An index is six
  bits, so it is always within the 64 characters of the alphabet.
\<close>

definition encodeStd :: string where
  "encodeStd = ''ABCDEFGHIJKLMNOPQRSTUVWXYZabcdefghijklmnopqrstuvwxyz0123456789+/''"

definition enc_char :: "32 word \<Rightarrow> char" where
  "enc_char val = encodeStd ! unat (val AND 0x3F)"

fun EncodeToString :: "byte list \<Rightarrow> string" where
  "EncodeToString (s0 # s1 # s2 # src) =
     (let val = push_bit 16 (ucast s0) OR push_bit 8 (ucast s1) OR ucast s2
      in enc_char (drop_bit 18 val) # enc_char (drop_bit 12 val) #
         enc_char (drop_bit 6 val) # enc_char val # EncodeToString src)"
| "EncodeToString [s0, s1] =
     (let val = push_bit 16 (ucast s0) OR push_bit 8 (ucast s1)
      in [enc_char (drop_bit 18 val), enc_char (drop_bit 12 val),
          enc_char (drop_bit 6 val), CHR ''=''])"
| "EncodeToString [s0] =
     (let val = push_bit 16 (ucast s0)
      in [enc_char (drop_bit 18 val), enc_char (drop_bit 12 val), CHR ''='', CHR ''=''])"
| "EncodeToString [] = []"

subsection \<open>\<open>ParseReport\<close>\<close>

text \<open>
  \<open>ParseReport\<close> returns an \<open>error\<close> (\<open>nil\<close> is \<open>None\<close>) and writes through its two
  arguments: the slice \<open>data\<close> shares its array with the caller's, and \<open>report\<close> is a
  pointer. The model returns the error together with the slice and the report as they
  are when the function returns. The outer \<open>option\<close> is \<open>None\<close> when the function
  panics.
\<close>

definition ParseReport ::
  "byte list \<Rightarrow> Xbox360ControllerReport \<Rightarrow>
     (error option \<times> byte list \<times> Xbox360ControllerReport) option" where
  "ParseReport data report =
     (if length data = 0 then
        Some (Some (ErrorNew ''cannot parse empty report''), data, report)
      else do {
        d0 \<leftarrow> index data 0;
        if d0 = 0x03 \<and> length data \<ge> 10 then do {
          a \<leftarrow> index data 1;
          b \<leftarrow> index data 2;
          c \<leftarrow> index data 3;
          let report = common_buttons b c report;
          let report = dpad a report;
          data \<leftarrow> normalize_axes 4 data;
          report \<leftarrow> set_axes data report;
          Some (None, data, report)
        }
        else
          Some (Some (Errorf (''unknown report format; raw report was '' @ EncodeToString data)),
                data, report)
      })"

section \<open>The controller: reading reports and watching for the device (\<open>stadia.go\<close>)\<close>

definition stadiaControllerVid :: "16 word" where "stadiaControllerVid = 0x18D1"
definition stadiaControllerPid :: "16 word" where "stadiaControllerPid = 0x9400"

text \<open>
  \<open>DeviceInfo\<close> of \<open>hid.go\<close>, with the three fields \<open>stadia.go\<close> reads, and an open
  device, which \<open>stadia.go\<close> sees through the interface \<open>Device\<close> only.
\<close>

record DeviceInfo =
  Path :: string
  VendorID :: "16 word"
  ProductID :: "16 word"

record Device =
  info :: DeviceInfo

text \<open>
  What the controller does to the outside, in the order it does it: the call of
  \<open>Devices\<close>, the call of \<open>Open\<close> on a device, and on an open device the receive from
  the channel of \<open>ReadCh\<close> and the calls of \<open>ReadError\<close> and \<open>Close\<close>. Log lines are left
  out.
\<close>

datatype io =
    DevicesCall
  | OpenCall string
  | ReadChRecv string
  | ReadErrorCall string
  | CloseCall string

text \<open>
  \<open>StadiaController\<close>. The pointer \<open>device\<close> is \<open>nil\<close> or points to the one open device;
  \<open>ticker\<close> is true until the ticker is stopped; \<open>err\<close> is \<open>nil\<close> or the recorded error.
\<close>

record StadiaController =
  device :: "Device option"
  ticker :: bool
  err :: "error option"

text \<open>
  The receive \<open>buf, ok := <-ReadCh()\<close> blocks until the channel delivers a buffer or is
  closed; which of the two happens is decided outside the controller.
\<close>

datatype recv = Recv "byte list" | ChClosed

text \<open>
  \<open>GetReport\<close> returns the report and the error, and leaves the controller changed; the
  model adds what it did to the device. The outer \<open>option\<close> is \<open>None\<close> when the call
  panics.
\<close>

definition GetReport ::
  "StadiaController \<Rightarrow> recv \<Rightarrow>
     ((Xbox360ControllerReport \<times> error option) \<times> StadiaController \<times> io list) option" where
  "GetReport c rx =
     (let report = zero_report in
      case device c of
        None \<Rightarrow>
          (let e = err c;
               e = (if e = None then Some RetryError else e)
           in Some ((report, e), c, []))
      | Some d \<Rightarrow>
          (case rx of
             ChClosed \<Rightarrow>
               Some ((report, Some RetryError), c\<lparr>device := None\<rparr>,
                     [ReadChRecv (Path (info d)), ReadErrorCall (Path (info d)),
                      CloseCall (Path (info d))])
           | Recv buf \<Rightarrow> do {
               (perr, buf, report) \<leftarrow> ParseReport buf report;
               if perr \<noteq> None
               then Some ((report, Some RetryError), c, [ReadChRecv (Path (info d))])
               else Some ((report, None), c, [ReadChRecv (Path (info d))])
             }))"

text \<open>
  \<open>NewStadiaController\<close> returns the controller below and starts the goroutine that
  runs once per tick of the ticker. The system is the controller together with
  whether that goroutine is still in its loop.
\<close>

definition NewStadiaController :: StadiaController where
  "NewStadiaController = \<lparr>device = None, ticker = True, err = None\<rparr>"

record system =
  controller :: StadiaController
  scanning :: bool

definition new_system :: system where
  "new_system = \<lparr>controller = NewStadiaController, scanning = True\<rparr>"

text \<open>
  The inner loop \<open>for _, device := range devices\<close>: the first device with the vendor
  and product of the Stadia controller is opened, and the loop is left whether or not
  the device opens. \<open>Open\<close> gives an error or a device (\<open>None\<close> is success here).
\<close>

fun open_first ::
  "DeviceInfo list \<Rightarrow> error option \<Rightarrow> StadiaController \<Rightarrow> StadiaController \<times> io list" where
  "open_first [] oerr c = (c, [])"
| "open_first (d # ds) oerr c =
     (if VendorID d = stadiaControllerVid \<and> ProductID d = stadiaControllerPid then
        (case oerr of
           Some e \<Rightarrow> (c, [OpenCall (Path d)])
         | None \<Rightarrow> (c\<lparr>device := Some \<lparr>info = d\<rparr>\<rparr>, [OpenCall (Path d)]))
      else open_first ds oerr c)"

text \<open>
  One pass of the body of \<open>for range ticker.C\<close>, on a tick. \<open>devices\<close> and \<open>derr\<close> are
  what \<open>Devices()\<close> returns if it is called, \<open>oerr\<close> what \<open>Open\<close> returns if it is called.
  A stopped ticker sends no tick, and a goroutine that has left the loop takes none.
  The loop is written against the signature of \<open>Devices()\<close>, which allows an error;
  the \<open>Devices()\<close> of \<open>hid.go\<close> returns \<open>nil\<close> for it on every path, so the error is an
  answer of the outside here.
\<close>

definition tick ::
  "DeviceInfo list \<Rightarrow> error option \<Rightarrow> error option \<Rightarrow> system \<Rightarrow> system \<times> io list" where
  "tick devices derr oerr s =
     (let c = controller s in
      if \<not> scanning s \<or> \<not> ticker c then (s, [])
      else if device c \<noteq> None \<or> err c \<noteq> None then (s, [])
      else if derr \<noteq> None then
        (s\<lparr>controller := c\<lparr>err := derr\<rparr>, scanning := False\<rparr>, [DevicesCall])
      else
        (let (c', t) = open_first devices oerr c
         in (s\<lparr>controller := c'\<rparr>, DevicesCall # t)))"

text \<open>
  A run of the system: ticks of the ticker and calls of \<open>GetReport\<close> from the main loop,
  one at a time, each with what the outside answers.
\<close>

datatype event =
    Tick "DeviceInfo list" "error option" "error option"
  | Read recv

datatype outcome =
    Ticked "io list"
  | ReadResult "Xbox360ControllerReport \<times> error option" "io list"
  | Panicked

definition step :: "event \<Rightarrow> system \<Rightarrow> system \<times> outcome" where
  "step ev s =
     (case ev of
        Tick devices derr oerr \<Rightarrow>
          (let (s', t) = tick devices derr oerr s in (s', Ticked t))
      | Read rx \<Rightarrow>
          (case GetReport (controller s) rx of
             None \<Rightarrow> (s, Panicked)
           | Some (res, c', t) \<Rightarrow> (s\<lparr>controller := c'\<rparr>, ReadResult res t)))"

fun run :: "event list \<Rightarrow> system \<Rightarrow> system \<times> outcome list" where
  "run [] s = (s, [])"
| "run (ev # evs) s =
     (let (s', out) = step ev s;
          (s'', outs) = run evs s'
      in (s'', out # outs))"

section \<open>Auxiliary definitions\<close>

text \<open>
  What one pass of the normalizing loop does to the byte it visits, and what the axis
  assignments compute from one normalized byte. These name parts of \<open>ParseReport\<close>;
  the lemmas below show that the function is made of them.
\<close>

definition bias :: "byte \<Rightarrow> byte" where
  "bias v = (if v \<le> 0x7F \<and> v > 0x00 then v - 1 else v)"

definition axis_x :: "byte \<Rightarrow> int16" where
  "axis_x v = ucast (convertAxisValue v - 0x8000)"

definition axis_y :: "byte \<Rightarrow> int16" where
  "axis_y v = (let y = - convertAxisValue v + 0x7fff in ucast (if y = - 1 then 0 else y))"

text \<open>The slice after the normalizing loop.\<close>

definition normalized :: "byte list \<Rightarrow> byte list" where
  "normalized data =
     data[4 := bias (data ! 4), 5 := bias (data ! 5), 6 := bias (data ! 6), 7 := bias (data ! 7)]"

text \<open>The report after a recognized buffer has been decoded into it.\<close>

definition recognized_report :: "byte list \<Rightarrow> Xbox360ControllerReport \<Rightarrow> Xbox360ControllerReport" where
  "recognized_report data report =
     SetRightTrigger (SetLeftTrigger
        (SetRightThumb
           (SetLeftThumb (dpad (data ! 1) (common_buttons (data ! 2) (data ! 3) report))
              (axis_x (bias (data ! 4))) (axis_y (bias (data ! 5))))
           (axis_x (bias (data ! 6))) (axis_y (bias (data ! 7))))
        (data ! 8)) (data ! 9)"

text \<open>The 24 bits into which the encoder packs a group of three bytes.\<close>

definition pack3 :: "byte \<Rightarrow> byte \<Rightarrow> byte \<Rightarrow> 32 word" where
  "pack3 s0 s1 s2 = push_bit 16 (ucast s0) OR push_bit 8 (ucast s1) OR ucast s2"

text \<open>
  The axis pipeline as the specification words it, on unbounded integers: the bias
  step, the widening with its clamp, the X and Y offsets and the snap of \<open>-1\<close>.
\<close>

definition spec_bias :: "int \<Rightarrow> int" where
  "spec_bias v = (if 0 < v \<and> v \<le> 0x7F then v - 1 else v)"

definition spec_wide :: "int \<Rightarrow> int" where
  "spec_wide v = (let wide = push_bit 8 v OR (push_bit 1 v AND 0xF)
                  in if wide = 0xFFFE then 0xFFFF else wide)"

definition spec_axis_x :: "int \<Rightarrow> int" where
  "spec_axis_x v = spec_wide (spec_bias v) - 0x8000"

definition spec_axis_y :: "int \<Rightarrow> int" where
  "spec_axis_y v = (let y = - spec_wide (spec_bias v) + 0x7FFF in if y = - 1 then 0 else y)"

text \<open>
  The D-pad table as the specification words it: the set of buttons each direction
  code stands for.
\<close>

definition spec_dpad :: "byte \<Rightarrow> nat set" where
  "spec_dpad code =
     (if code = 0 then {Xbox360ControllerButtonUp}
      else if code = 1 then {Xbox360ControllerButtonUp, Xbox360ControllerButtonRight}
      else if code = 2 then {Xbox360ControllerButtonRight}
      else if code = 3 then {Xbox360ControllerButtonRight, Xbox360ControllerButtonDown}
      else if code = 4 then {Xbox360ControllerButtonDown}
      else if code = 5 then {Xbox360ControllerButtonDown, Xbox360ControllerButtonLeft}
      else if code = 6 then {Xbox360ControllerButtonLeft}
      else if code = 7 then {Xbox360ControllerButtonLeft, Xbox360ControllerButtonUp}
      else {})"

text \<open>
  Reading a report: a button is pressed when its bit of \<open>wButtons\<close> is set, and the
  four thumb fields are signed.
\<close>

definition pressed :: "nat \<Rightarrow> Xbox360ControllerReport \<Rightarrow> bool" where
  "pressed button r = bit (GetButtons r) button"

definition ThumbLX :: "Xbox360ControllerReport \<Rightarrow> int" where
  "ThumbLX r = sint (fst (GetLeftThumb r))"

definition ThumbLY :: "Xbox360ControllerReport \<Rightarrow> int" where
  "ThumbLY r = sint (snd (GetLeftThumb r))"

definition ThumbRX :: "Xbox360ControllerReport \<Rightarrow> int" where
  "ThumbRX r = sint (fst (GetRightThumb r))"

definition ThumbRY :: "Xbox360ControllerReport \<Rightarrow> int" where
  "ThumbRY r = sint (snd (GetRightThumb r))"

text \<open>
  Decoding into a fresh report, the way \<open>GetReport\<close> calls \<open>ParseReport\<close>: the report
  when the call returns no error.
\<close>

definition decode :: "byte list \<Rightarrow> Xbox360ControllerReport option" where
  "decode data =
     (case ParseReport data zero_report of
        Some (None, d, r) \<Rightarrow> Some r
      | _ \<Rightarrow> None)"

text \<open>A Stadia controller as \<open>Devices()\<close> lists it.\<close>

definition stadia :: DeviceInfo where
  "stadia = \<lparr>Path = ''usb#stadia'', VendorID = 0x18D1, ProductID = 0x9400\<rparr>"

text \<open>
  The state after an enumeration failure, and what each later event then gives: a tick
  does nothing, a read returns the recorded error without touching a device.
\<close>

definition faulted :: "error \<Rightarrow> system \<Rightarrow> bool" where
  "faulted e s \<longleftrightarrow> err (controller s) = Some e \<and> device (controller s) = None \<and> \<not> scanning s"

definition fault_outcome :: "error \<Rightarrow> event \<Rightarrow> outcome" where
  "fault_outcome e ev =
     (case ev of
        Tick devices derr oerr \<Rightarrow> Ticked []
      | Read rx \<Rightarrow> ReadResult (zero_report, Some e) [])"

section \<open>Lemmas about the codec\<close>

subsection \<open>Widening a byte\<close>

lemma int_wide: "push_bit 8 n OR (push_bit 1 n AND 15) = 256 * n + (2 * n) mod 16" for n :: int
proof -
  have m: "(15::int) = mask 4" by (simp add: mask_eq_exp_minus_1)
  have a: "push_bit 1 n AND 15 = take_bit 4 (2 * n)"
    unfolding m by (simp add: take_bit_eq_mask push_bit_eq_mult mult.commute)
  have "push_bit 8 n OR take_bit 4 (2 * n) = concat_bit 8 (take_bit 4 (2 * n)) n"
    by (simp add: concat_bit_def or.commute)
  also have "\<dots> = take_bit 4 (2 * n) + push_bit 8 n"
    by (simp add: concat_bit_eq)
  finally have "push_bit 8 n OR (push_bit 1 n AND 15) = take_bit 4 (2 * n) + push_bit 8 n"
    by (simp only: a)
  also have "\<dots> = 256 * n + (2 * n) mod 16"
    by (simp add: take_bit_eq_mod push_bit_eq_mult)
  finally show ?thesis .
qed

lemma uint_byte_bounds: "0 \<le> uint (v::byte) \<and> uint v < 256"
  using unsigned_less [of v, where 'a = int] by simp

lemma uint_wide:
  "uint (push_bit 8 (ucast (v::byte)) OR (push_bit 1 (ucast v) AND 0b1111) :: int32)
     = 256 * uint v + (2 * uint v) mod 16"
proof -
  have b: "0 \<le> uint v" "uint v < 256" using uint_byte_bounds [of v] by simp_all
  have 0: "uint (ucast v :: int32) = uint v"
    using b by (simp add: unsigned_ucast_eq take_bit_int_eq_self)
  have 1: "uint (push_bit 8 (ucast v :: int32)) = push_bit 8 (uint v)"
    using b by (simp add: unsigned_push_bit_eq unsigned_ucast_eq take_bit_push_bit take_bit_int_eq_self)
  have 2: "uint (push_bit 1 (ucast v :: int32)) = push_bit 1 (uint v)"
    using b by (simp add: push_bit_eq_mult uint_word_ariths 0)
  have "uint (push_bit 8 (ucast v) OR (push_bit 1 (ucast v) AND 0b1111) :: int32)
      = push_bit 8 (uint v) OR (push_bit 1 (uint v) AND 15)"
    unfolding uint_or uint_and 1 2 by simp
  then show ?thesis by (simp only: int_wide)
qed

lemma sint16_of_int32:
  fixes x :: int32
  assumes "x = word_of_int k" "- 32768 \<le> k" "k < 32768"
  shows "sint (ucast x :: int16) = k"
proof -
  have "(ucast x :: int16) = word_of_int k"
    unfolding assms(1) by transfer simp
  then have "sint (ucast x :: int16) = signed_take_bit 15 k"
    by (simp add: signed_of_int)
  also have "\<dots> = k"
    using assms(2,3) by (simp add: signed_take_bit_int_eq_self)
  finally show ?thesis .
qed


lemma wide_bound:
  fixes n :: int
  assumes "0 \<le> n" "n < 256"
  shows "0 \<le> 256 * n + (2 * n) mod 16 \<and> 256 * n + (2 * n) mod 16 \<le> 65295"
proof -
  have "0 \<le> (2 * n) mod 16" "(2 * n) mod 16 < 16" by simp_all
  with assms show ?thesis by linarith
qed

lemma uint_convertAxisValue:
  "uint (convertAxisValue v) = 256 * uint v + (2 * uint v) mod 16"
proof -
  let ?w = "push_bit 8 (ucast v) OR (push_bit 1 (ucast v) AND 0b1111) :: int32"
  have "uint ?w \<le> 65295"
    unfolding uint_wide using wide_bound [of "uint v"] uint_byte_bounds [of v] by blast
  then have "uint ?w \<noteq> 65534" by linarith
  then have "?w \<noteq> 0xfffe"
    by (auto simp: word_uint_eq_iff)
  then have "convertAxisValue v = ?w"
    by (simp add: convertAxisValue_def Let_def)
  then show ?thesis by (simp only: uint_wide)
qed

lemma convertAxisValue_range:
  "0 \<le> uint (convertAxisValue v) \<and> uint (convertAxisValue v) \<le> 0xFF0F"
  unfolding uint_convertAxisValue
  using wide_bound [of "uint v"] uint_byte_bounds [of v] by simp

lemma sint_axis_x: "sint (axis_x v) = uint (convertAxisValue v) - 0x8000"
proof -
  have "convertAxisValue v - 0x8000 = word_of_int (uint (convertAxisValue v) - 0x8000)"
    by simp
  moreover have "- 32768 \<le> uint (convertAxisValue v) - 0x8000"
    "uint (convertAxisValue v) - 0x8000 < 32768"
    using convertAxisValue_range [of v] by simp_all
  ultimately show ?thesis
    unfolding axis_x_def by (rule sint16_of_int32)
qed

lemma sint_axis_y:
  "sint (axis_y v) =
     (let y = - uint (convertAxisValue v) + 0x7FFF in if y = - 1 then 0 else y)"
proof -
  let ?u = "uint (convertAxisValue v)"
  let ?y = "- convertAxisValue v + 0x7fff"
  have r: "0 \<le> ?u \<and> ?u \<le> 0xFF0F" by (rule convertAxisValue_range)
  have y: "?y = word_of_int (- ?u + 0x7FFF)" by simp
  have lo: "- 32768 \<le> - ?u + 0x7FFF" using r by linarith
  have hi: "- ?u + 0x7FFF < 32768" using r by linarith
  have m1: "?y = - 1 \<longleftrightarrow> - ?u + 0x7FFF = - 1"
  proof -
    have "?y = - 1 \<longleftrightarrow> convertAxisValue v = 0x8000" by (auto simp: algebra_simps)
    also have "\<dots> \<longleftrightarrow> ?u = 0x8000" by (simp add: word_uint_eq_iff)
    finally show ?thesis by auto
  qed
  show ?thesis
  proof (cases "?y = - 1")
    case True
    then show ?thesis using m1 by (simp add: axis_y_def Let_def)
  next
    case False
    have "sint (ucast ?y :: int16) = - ?u + 0x7FFF"
      using y lo hi by (rule sint16_of_int32)
    then show ?thesis using False m1 by (simp add: axis_y_def Let_def)
  qed
qed

lemma uint_bias: "uint (bias v) = spec_bias (uint v)"
proof (cases "v \<le> 0x7F \<and> v > 0")
  case True
  then have b: "uint v \<le> 127" "0 < uint v"
    by (simp_all add: word_le_def word_less_def)
  then have "uint (1::byte) \<le> uint v" by simp
  then have "uint (v - 1) = uint v - uint (1::byte)"
    by (simp only: uint_sub_lem)
  then have "uint (v - 1) = uint v - 1" by simp
  then show ?thesis using True b by (simp add: bias_def spec_bias_def)
next
  case False
  then have "\<not> (0 < uint v \<and> uint v \<le> 127)"
    by (auto simp: word_le_def word_less_def)
  then show ?thesis using False by (auto simp: bias_def spec_bias_def)
qed

lemma spec_bias_range: "0 \<le> n \<Longrightarrow> n < 256 \<Longrightarrow> 0 \<le> spec_bias n \<and> spec_bias n < 256"
  by (simp add: spec_bias_def)

lemma spec_wide_eq: 
  assumes "0 \<le> n" "n < 256"
  shows "spec_wide n = 256 * n + (2 * n) mod 16"
proof -
  have ne: "256 * n + (2 * n) mod 16 \<noteq> 65534" using wide_bound [OF assms] by linarith
  have e: "push_bit 8 n OR (push_bit 1 n AND 0xF) = 256 * n + (2 * n) mod 16"
    by (rule int_wide)
  show ?thesis unfolding spec_wide_def Let_def e using ne by simp
qed

lemma uint_convertAxisValue_bias:
  "uint (convertAxisValue (bias v)) = spec_wide (spec_bias (uint v))"
proof -
  have "0 \<le> spec_bias (uint v) \<and> spec_bias (uint v) < 256"
    using uint_byte_bounds [of v] by (intro spec_bias_range) simp_all
  then show ?thesis
    by (simp add: uint_convertAxisValue uint_bias spec_wide_eq)
qed

lemma axis_x_spec: "sint (axis_x (bias v)) = spec_axis_x (uint v)"
  by (simp add: sint_axis_x uint_convertAxisValue_bias spec_axis_x_def)

lemma axis_y_spec: "sint (axis_y (bias v)) = spec_axis_y (uint v)"
  by (simp add: sint_axis_y uint_convertAxisValue_bias spec_axis_y_def)

subsection \<open>The three outcomes of \<open>ParseReport\<close>\<close>

lemma normalize_axes_step:
  "normalize_axes i data =
     (if i < 8 then
        (case index data i of None \<Rightarrow> None
         | Some v \<Rightarrow> normalize_axes (i + 1) (data[i := bias v]))
      else Some data)"
  by (subst normalize_axes.simps) (auto simp: bias_def index_def split: option.splits)

lemma normalize_axes_4:
  assumes "8 \<le> length data"
  shows "normalize_axes 4 data =
    Some (data[4 := bias (data ! 4), 5 := bias (data ! 5), 6 := bias (data ! 6), 7 := bias (data ! 7)])"
proof -
  have 8: "\<And>d. normalize_axes 8 d = Some d"
    by (subst normalize_axes_step) simp
  have 7: "\<And>d. 8 \<le> length d \<Longrightarrow> normalize_axes 7 d = Some (d[7 := bias (d ! 7)])"
    by (subst normalize_axes_step) (simp add: index_def 8)
  have 6: "\<And>d. 8 \<le> length d \<Longrightarrow> normalize_axes 6 d = Some (d[6 := bias (d ! 6), 7 := bias (d ! 7)])"
    by (subst normalize_axes_step) (simp add: index_def 7)
  have 5: "\<And>d. 8 \<le> length d \<Longrightarrow>
      normalize_axes 5 d = Some (d[5 := bias (d ! 5), 6 := bias (d ! 6), 7 := bias (d ! 7)])"
    by (subst normalize_axes_step) (simp add: index_def 6)
  show ?thesis using assms
    by (subst normalize_axes_step) (simp add: index_def 5)
qed

lemma length_normalized [simp]: "length (normalized data) = length data"
  by (simp add: normalized_def)

lemma nth_normalized:
  "i < length data \<Longrightarrow>
     normalized data ! i = (if 4 \<le> i \<and> i < 8 then bias (data ! i) else data ! i)"
proof (cases "4 \<le> i \<and> i < 8")
  case True
  then have "i = 4 \<or> i = 5 \<or> i = 6 \<or> i = 7" by arith
  moreover assume "i < length data"
  ultimately show ?thesis by (auto simp: normalized_def)
next
  case False
  moreover assume "i < length data"
  ultimately show ?thesis by (auto simp: normalized_def)
qed

lemma set_axes_closed:
  assumes "10 \<le> length d"
  shows "set_axes d r =
    Some (SetRightTrigger (SetLeftTrigger
      (SetRightThumb (SetLeftThumb r (axis_x (d ! 4)) (axis_y (d ! 5)))
         (axis_x (d ! 6)) (axis_y (d ! 7))) (d ! 8)) (d ! 9))"
  using assms by (simp add: set_axes_def index_def axis_x_def axis_y_def Let_def)

lemma ParseReport_recognized:
  assumes "10 \<le> length data" "data ! 0 = 0x03"
  shows "ParseReport data report =
    Some (None, normalized data,
      SetRightTrigger (SetLeftTrigger
        (SetRightThumb
           (SetLeftThumb (dpad (data ! 1) (common_buttons (data ! 2) (data ! 3) report))
              (axis_x (bias (data ! 4))) (axis_y (bias (data ! 5))))
           (axis_x (bias (data ! 6))) (axis_y (bias (data ! 7))))
        (data ! 8)) (data ! 9))"
proof -
  have n: "normalize_axes 4 data = Some (normalized data)"
    using assms(1) by (simp add: normalize_axes_4 normalized_def)
  have s: "set_axes (normalized data) r =
    Some (SetRightTrigger (SetLeftTrigger
        (SetRightThumb (SetLeftThumb r (axis_x (bias (data ! 4))) (axis_y (bias (data ! 5))))
           (axis_x (bias (data ! 6))) (axis_y (bias (data ! 7))))
        (data ! 8)) (data ! 9))" for r
    using assms(1) by (simp add: set_axes_closed nth_normalized)
  have "data \<noteq> []" using assms(1) by auto
  then show ?thesis
    using assms by (simp add: ParseReport_def index_def n s)
qed

lemma ParseReport_empty:
  "ParseReport [] report = Some (Some (ErrorNew ''cannot parse empty report''), [], report)"
  by (simp add: ParseReport_def)

lemma ParseReport_unknown:
  assumes "data \<noteq> []" "data ! 0 \<noteq> 0x03 \<or> length data < 10"
  shows "ParseReport data report =
    Some (Some (Errorf (''unknown report format; raw report was '' @ EncodeToString data)),
          data, report)"
  using assms by (auto simp: ParseReport_def index_def)

subsection \<open>Buttons\<close>

lemma bit_SetButton:
  "bit (GetButtons (SetButton r s)) n \<longleftrightarrow> bit (GetButtons r) n \<or> (n = s \<and> s < 16)"
  by (auto simp: GetButtons_def SetButton_def bit_simps)

lemma bit_MaybeSetButton:
  "bit (GetButtons (MaybeSetButton r s c)) n \<longleftrightarrow>
     bit (GetButtons r) n \<or> (n = s \<and> s < 16 \<and> c)"
  by (simp add: MaybeSetButton_def bit_SetButton)

lemma flags_SetButton [simp]:
  "Capture (SetButton r s) = Capture r" "Assistant (SetButton r s) = Assistant r"
  by (simp_all add: SetButton_def)

lemma flags_MaybeSetButton [simp]:
  "Capture (MaybeSetButton r s c) = Capture r" "Assistant (MaybeSetButton r s c) = Assistant r"
  by (simp_all add: MaybeSetButton_def)

lemma and_bit_byte:
  fixes c :: byte
  shows "c AND 0b10000000 \<noteq> 0 \<longleftrightarrow> bit c 7"
    and "c AND 0b01000000 \<noteq> 0 \<longleftrightarrow> bit c 6"
    and "c AND 0b00100000 \<noteq> 0 \<longleftrightarrow> bit c 5"
    and "c AND 0b00010000 \<noteq> 0 \<longleftrightarrow> bit c 4"
    and "c AND 0b00001000 \<noteq> 0 \<longleftrightarrow> bit c 3"
    and "c AND 0b00000100 \<noteq> 0 \<longleftrightarrow> bit c 2"
    and "c AND 0b00000010 \<noteq> 0 \<longleftrightarrow> bit c 1"
    and "c AND 0b00000001 \<noteq> 0 \<longleftrightarrow> bit c 0"
  using bit_iff_and_push_bit_not_eq_0 [of c 7] bit_iff_and_push_bit_not_eq_0 [of c 6]
    bit_iff_and_push_bit_not_eq_0 [of c 5] bit_iff_and_push_bit_not_eq_0 [of c 4]
    bit_iff_and_push_bit_not_eq_0 [of c 3] bit_iff_and_push_bit_not_eq_0 [of c 2]
    bit_iff_and_push_bit_not_eq_0 [of c 1] bit_iff_and_push_bit_not_eq_0 [of c 0]
  by simp_all

lemma bit_common_buttons:
  "bit (GetButtons (common_buttons b c r)) n \<longleftrightarrow>
     bit (GetButtons r) n
     \<or> n = Xbox360ControllerButtonA \<and> bit c 6
     \<or> n = Xbox360ControllerButtonB \<and> bit c 5
     \<or> n = Xbox360ControllerButtonX \<and> bit c 4
     \<or> n = Xbox360ControllerButtonY \<and> bit c 3
     \<or> n = Xbox360ControllerButtonLeftShoulder \<and> bit c 2
     \<or> n = Xbox360ControllerButtonRightShoulder \<and> bit c 1
     \<or> n = Xbox360ControllerButtonLeftThumb \<and> bit c 0
     \<or> n = Xbox360ControllerButtonRightThumb \<and> bit b 7
     \<or> n = Xbox360ControllerButtonBack \<and> bit b 6
     \<or> n = Xbox360ControllerButtonStart \<and> bit b 5
     \<or> n = Xbox360ControllerButtonGuide \<and> bit b 4"
proof -
  have g: "GetButtons (x\<lparr>Assistant := p, Capture := q\<rparr>) = GetButtons x" for x p q
    by (simp add: GetButtons_def)
  show ?thesis
    unfolding common_buttons_def Let_def g bit_MaybeSetButton and_bit_byte
    by (simp add: button_defs)
qed

lemma flags_common_buttons:
  "Assistant (common_buttons b c r) \<longleftrightarrow> bit b 1"
  "Capture (common_buttons b c r) \<longleftrightarrow> bit b 0"
  by (simp_all add: common_buttons_def Let_def and_bit_byte)

lemma bit_dpad:
  "bit (GetButtons (dpad a r)) n \<longleftrightarrow> bit (GetButtons r) n \<or> n \<in> spec_dpad a"
  unfolding dpad_def spec_dpad_def
  by (simp add: bit_SetButton button_defs) 

lemma flags_dpad [simp]:
  "Capture (dpad a r) = Capture r" "Assistant (dpad a r) = Assistant r"
  by (simp_all add: dpad_def)

subsection \<open>What a recognized report decodes to\<close>

lemma ParseReport_fields:
  assumes "10 \<le> length data" "data ! 0 = 0x03"
  shows "\<exists>r'. ParseReport data report = Some (None, normalized data, r') \<and>
    (\<forall>n. pressed n r' \<longleftrightarrow>
        pressed n (common_buttons (data ! 2) (data ! 3) report) \<or> n \<in> spec_dpad (data ! 1)) \<and>
    Assistant r' = bit (data ! 2) 1 \<and> Capture r' = bit (data ! 2) 0 \<and>
    GetLeftThumb r' = (axis_x (bias (data ! 4)), axis_y (bias (data ! 5))) \<and>
    GetRightThumb r' = (axis_x (bias (data ! 6)), axis_y (bias (data ! 7))) \<and>
    GetLeftTrigger r' = data ! 8 \<and> GetRightTrigger r' = data ! 9"
proof -
  let ?r = "dpad (data ! 1) (common_buttons (data ! 2) (data ! 3) report)"
  let ?r' = "SetRightTrigger (SetLeftTrigger
        (SetRightThumb (SetLeftThumb ?r (axis_x (bias (data ! 4))) (axis_y (bias (data ! 5))))
           (axis_x (bias (data ! 6))) (axis_y (bias (data ! 7))))
        (data ! 8)) (data ! 9)"
  have p: "ParseReport data report = Some (None, normalized data, ?r')"
    using assms by (rule ParseReport_recognized)
  have b: "GetButtons ?r' = GetButtons ?r"
    by (simp add: GetButtons_def SetRightTrigger_def SetLeftTrigger_def SetRightThumb_def
        SetLeftThumb_def)
  have f: "Assistant ?r' = Assistant ?r" "Capture ?r' = Capture ?r"
    by (simp_all add: SetRightTrigger_def SetLeftTrigger_def SetRightThumb_def SetLeftThumb_def)
  have t: "GetLeftThumb ?r' = (axis_x (bias (data ! 4)), axis_y (bias (data ! 5)))"
    "GetRightThumb ?r' = (axis_x (bias (data ! 6)), axis_y (bias (data ! 7)))"
    "GetLeftTrigger ?r' = data ! 8" "GetRightTrigger ?r' = data ! 9"
    by (simp_all add: GetLeftThumb_def GetRightThumb_def GetLeftTrigger_def GetRightTrigger_def
        SetRightTrigger_def SetLeftTrigger_def SetRightThumb_def SetLeftThumb_def)
  have "\<forall>n. pressed n ?r' \<longleftrightarrow>
        pressed n (common_buttons (data ! 2) (data ! 3) report) \<or> n \<in> spec_dpad (data ! 1)"
    unfolding pressed_def b bit_dpad by blast
  moreover have "Assistant ?r' = bit (data ! 2) 1" "Capture ?r' = bit (data ! 2) 0"
    unfolding f by (simp_all add: flags_common_buttons)
  ultimately show ?thesis
    using p t by blast
qed

subsection \<open>The encoding of the raw bytes loses nothing\<close>

lemma length_encodeStd: "length encodeStd = 64"
  by (simp add: encodeStd_def)

lemma distinct_encodeStd: "distinct encodeStd"
  by (simp add: encodeStd_def)

lemma pad_notin_encodeStd: "CHR ''='' \<notin> set encodeStd"
  by (simp add: encodeStd_def)

lemma sextet_less: "unat (val AND 0x3F :: 32 word) < 64"
proof -
  have "val AND 0x3F \<le> 0x3F" by (rule word_and_le1)
  then show ?thesis by (simp add: word_le_nat_alt)
qed

lemma enc_char_eq_iff: "enc_char a = enc_char b \<longleftrightarrow> a AND 0x3F = b AND 0x3F"
proof -
  have "encodeStd ! unat (a AND 0x3F) = encodeStd ! unat (b AND 0x3F)
      \<longleftrightarrow> unat (a AND 0x3F) = unat (b AND 0x3F)"
    using sextet_less [of a] sextet_less [of b]
    by (intro nth_eq_iff_index_eq distinct_encodeStd) (simp_all add: length_encodeStd)
  then show ?thesis by (simp add: enc_char_def word_unat_eq_iff)
qed

lemma enc_char_not_pad [simp]: "enc_char a \<noteq> CHR ''=''" "CHR ''='' \<noteq> enc_char a"
proof -
  have "enc_char a \<in> set encodeStd"
    unfolding enc_char_def using sextet_less [of a] by (intro nth_mem) (simp add: length_encodeStd)
  with pad_notin_encodeStd show "enc_char a \<noteq> CHR ''=''" "CHR ''='' \<noteq> enc_char a" by auto
qed

lemma m6: "(0x3F :: 32 word) = mask 6" by (simp add: mask_eq_exp_minus_1)

lemma val_from_sextets:
  fixes v w :: "32 word"
  assumes "drop_bit 18 v AND 0x3F = drop_bit 18 w AND 0x3F"
    "drop_bit 12 v AND 0x3F = drop_bit 12 w AND 0x3F"
    "drop_bit 6 v AND 0x3F = drop_bit 6 w AND 0x3F"
    "v AND 0x3F = w AND 0x3F"
  shows "take_bit 24 v = take_bit 24 w"
proof (rule bit_word_eqI)
  fix n assume "n < LENGTH(32)"
  have a: "bit v (18 + k) = bit w (18 + k)" if "k < 6" for k
    using assms(1) that unfolding m6 by (auto simp: bit_eq_iff bit_simps dest!: spec [of _ k])
  have b: "bit v (12 + k) = bit w (12 + k)" if "k < 6" for k
    using assms(2) that unfolding m6 by (auto simp: bit_eq_iff bit_simps dest!: spec [of _ k])
  have c: "bit v (6 + k) = bit w (6 + k)" if "k < 6" for k
    using assms(3) that unfolding m6 by (auto simp: bit_eq_iff bit_simps dest!: spec [of _ k])
  have d: "bit v k = bit w k" if "k < 6" for k
    using assms(4) that unfolding m6 by (auto simp: bit_eq_iff bit_simps dest!: spec [of _ k])
  have "bit v n = bit w n" if n24: "n < 24"
  proof -
    consider "n < 6" | "6 \<le> n" "n < 12" | "12 \<le> n" "n < 18" | "18 \<le> n" "n < 24"
      using n24 by linarith
    then show ?thesis
    proof cases
      case 1 then show ?thesis by (rule d)
    next
      case 2 then show ?thesis using c [of "n - 6"] by simp
    next
      case 3 then show ?thesis using b [of "n - 12"] by simp
    next
      case 4 then show ?thesis using a [of "n - 18"] by simp
    qed
  qed
  then show "bit (take_bit 24 v) n = bit (take_bit 24 w) n"
    by (auto simp: bit_simps)
qed

lemma unpack3:
  "ucast (drop_bit 16 (take_bit 24 (pack3 s0 s1 s2))) = s0"
  "ucast (drop_bit 8 (take_bit 24 (pack3 s0 s1 s2))) = s1"
  "ucast (take_bit 24 (pack3 s0 s1 s2)) = s2"
  unfolding pack3_def
  by (rule bit_word_eqI; auto simp: bit_simps dest: bit_imp_le_length)+

lemma EncodeToString_pack3:
  "EncodeToString (s0 # s1 # s2 # src) =
     enc_char (drop_bit 18 (pack3 s0 s1 s2)) # enc_char (drop_bit 12 (pack3 s0 s1 s2)) #
     enc_char (drop_bit 6 (pack3 s0 s1 s2)) # enc_char (pack3 s0 s1 s2) # EncodeToString src"
  "EncodeToString [s0, s1] =
     [enc_char (drop_bit 18 (pack3 s0 s1 0)), enc_char (drop_bit 12 (pack3 s0 s1 0)),
      enc_char (drop_bit 6 (pack3 s0 s1 0)), CHR ''='']"
  "EncodeToString [s0] =
     [enc_char (drop_bit 18 (pack3 s0 0 0)), enc_char (drop_bit 12 (pack3 s0 0 0)),
      CHR ''='', CHR ''='']"
  by (simp_all add: pack3_def Let_def)

lemma pack3_low_bits:
  "pack3 s0 s1 0 AND 0x3F = 0"
  "drop_bit 6 (pack3 s0 0 0) AND 0x3F = 0"
  "pack3 s0 0 0 AND 0x3F = 0"
  unfolding pack3_def m6
  by (rule bit_word_eqI; auto simp: bit_simps dest: bit_imp_le_length)+

lemma pack3_inj:
  assumes "enc_char (drop_bit 18 (pack3 s0 s1 s2)) = enc_char (drop_bit 18 (pack3 t0 t1 t2))"
    "enc_char (drop_bit 12 (pack3 s0 s1 s2)) = enc_char (drop_bit 12 (pack3 t0 t1 t2))"
    "drop_bit 6 (pack3 s0 s1 s2) AND 0x3F = drop_bit 6 (pack3 t0 t1 t2) AND 0x3F"
    "pack3 s0 s1 s2 AND 0x3F = pack3 t0 t1 t2 AND 0x3F"
  shows "s0 = t0 \<and> s1 = t1 \<and> s2 = t2"
proof -
  have "take_bit 24 (pack3 s0 s1 s2) = take_bit 24 (pack3 t0 t1 t2)"
    using assms by (intro val_from_sextets) (simp_all add: enc_char_eq_iff)
  then show ?thesis
    using unpack3 [of s0 s1 s2] unpack3 [of t0 t1 t2] by simp
qed

lemma EncodeToString_inj:
  "EncodeToString xs = EncodeToString ys \<Longrightarrow> xs = ys"
proof (induction xs arbitrary: ys rule: EncodeToString.induct)
  case (1 s0 s1 s2 src)
  note IH = "1.IH" and prems = "1.prems"
  show ?case
  proof (cases ys rule: EncodeToString.cases)
    case (1 t0 t1 t2 rest)
    with prems have e: "enc_char (drop_bit 18 (pack3 s0 s1 s2)) = enc_char (drop_bit 18 (pack3 t0 t1 t2))"
      "enc_char (drop_bit 12 (pack3 s0 s1 s2)) = enc_char (drop_bit 12 (pack3 t0 t1 t2))"
      "enc_char (drop_bit 6 (pack3 s0 s1 s2)) = enc_char (drop_bit 6 (pack3 t0 t1 t2))"
      "enc_char (pack3 s0 s1 s2) = enc_char (pack3 t0 t1 t2)"
      and r: "EncodeToString src = EncodeToString rest"
      by (simp_all add: EncodeToString_pack3 del: EncodeToString.simps)
    from e have "s0 = t0 \<and> s1 = t1 \<and> s2 = t2"
      by (intro pack3_inj) (simp_all add: enc_char_eq_iff)
    moreover have "src = rest" using IH r by blast
    ultimately show ?thesis using 1 by simp
  next
    case (2 t0 t1)
    with prems show ?thesis
      by (simp add: EncodeToString_pack3 del: EncodeToString.simps)
  next
    case (3 t0)
    with prems show ?thesis
      by (simp add: EncodeToString_pack3 del: EncodeToString.simps)
  next
    case 4
    with prems show ?thesis by (simp add: Let_def)
  qed
next
  case (2 s0 s1)
  note prems = "2.prems"
  show ?case
  proof (cases ys rule: EncodeToString.cases)
    case (1 t0 t1 t2 rest)
    with prems show ?thesis
      by (simp add: EncodeToString_pack3 del: EncodeToString.simps)
  next
    case (2 t0 t1)
    with prems have e: "enc_char (drop_bit 18 (pack3 s0 s1 0)) = enc_char (drop_bit 18 (pack3 t0 t1 0))"
      "enc_char (drop_bit 12 (pack3 s0 s1 0)) = enc_char (drop_bit 12 (pack3 t0 t1 0))"
      "enc_char (drop_bit 6 (pack3 s0 s1 0)) = enc_char (drop_bit 6 (pack3 t0 t1 0))"
      by (simp_all add: EncodeToString_pack3 del: EncodeToString.simps)
    then have "s0 = t0 \<and> s1 = t1 \<and> (0::byte) = 0"
      by (intro pack3_inj) (simp_all add: enc_char_eq_iff pack3_low_bits)
    then show ?thesis using 2 by simp
  next
    case (3 t0)
    with prems show ?thesis
      by (simp add: EncodeToString_pack3 del: EncodeToString.simps)
  next
    case 4
    with prems show ?thesis by (simp add: Let_def)
  qed
next
  case (3 s0)
  note prems = "3.prems"
  show ?case
  proof (cases ys rule: EncodeToString.cases)
    case (1 t0 t1 t2 rest)
    with prems show ?thesis
      by (simp add: EncodeToString_pack3 del: EncodeToString.simps)
  next
    case (2 t0 t1)
    with prems show ?thesis
      by (simp add: EncodeToString_pack3 del: EncodeToString.simps)
  next
    case (3 t0)
    with prems have e: "enc_char (drop_bit 18 (pack3 s0 0 0)) = enc_char (drop_bit 18 (pack3 t0 0 0))"
      "enc_char (drop_bit 12 (pack3 s0 0 0)) = enc_char (drop_bit 12 (pack3 t0 0 0))"
      by (simp_all add: EncodeToString_pack3 del: EncodeToString.simps)
    then have "s0 = t0 \<and> (0::byte) = 0 \<and> (0::byte) = 0"
      by (intro pack3_inj) (simp_all add: pack3_low_bits)
    then show ?thesis using 3 by simp
  next
    case 4
    with prems show ?thesis by (simp add: Let_def)
  qed
next
  case 4
  then show ?case
    by (cases ys rule: EncodeToString.cases) (simp_all add: Let_def)
qed

section \<open>Properties of the codec\<close>

lemma decode_recognized:
  assumes "ParseReport data zero_report = Some (None, d, r)"
  shows "decode data = Some r"
  using assms by (simp add: decode_def)

subsection \<open>The clamp of \<open>convertAxisValue\<close>\<close>

text \<open>
  Claim C10. The branch of \<open>convertAxisValue\<close> that turns \<open>0xfffe\<close> into \<open>0xffff\<close> is
  never taken: for every byte, the widened value has bits 4 to 7 clear, so it differs
  from \<open>0xfffe\<close>; the function returns the widened value as it is, never \<open>0xffff\<close>, and
  its result lies between 0 and \<open>0xFF0F\<close>.
\<close>

theorem convertAxisValue_clamp_unreachable:
  "\<not> bit (push_bit 8 (ucast v) OR (push_bit 1 (ucast v) AND 0b1111) :: int32) 4 \<and>
   \<not> bit (push_bit 8 (ucast v) OR (push_bit 1 (ucast v) AND 0b1111) :: int32) 5 \<and>
   \<not> bit (push_bit 8 (ucast v) OR (push_bit 1 (ucast v) AND 0b1111) :: int32) 6 \<and>
   \<not> bit (push_bit 8 (ucast v) OR (push_bit 1 (ucast v) AND 0b1111) :: int32) 7 \<and>
   (push_bit 8 (ucast v) OR (push_bit 1 (ucast v) AND 0b1111) :: int32) \<noteq> 0xfffe \<and>
   convertAxisValue v = push_bit 8 (ucast v) OR (push_bit 1 (ucast v) AND 0b1111) \<and>
   convertAxisValue v \<noteq> 0xffff \<and>
   0 \<le> sint (convertAxisValue v) \<and> sint (convertAxisValue v) \<le> 0xFF0F"
proof -
  let ?w = "push_bit 8 (ucast v) OR (push_bit 1 (ucast v) AND 0b1111) :: int32"
  have bits: "\<not> bit ?w 4" "\<not> bit ?w 5" "\<not> bit ?w 6" "\<not> bit ?w 7"
    by (simp_all add: bit_simps)
  have ne: "?w \<noteq> 0xfffe"
  proof
    assume "?w = 0xfffe"
    then have "bit ?w 4 = bit (0xfffe :: int32) 4" by simp
    with bits(1) show False by simp
  qed
  then have eq: "convertAxisValue v = ?w"
    by (simp add: convertAxisValue_def Let_def)
  have r: "0 \<le> uint (convertAxisValue v)" "uint (convertAxisValue v) \<le> 0xFF0F"
    using convertAxisValue_range [of v] by simp_all
  then have "uint (convertAxisValue v) \<noteq> 0xffff" by linarith
  then have nf: "convertAxisValue v \<noteq> 0xffff"
    by (auto simp: word_uint_eq_iff)
  have "- (2 ^ 31) \<le> uint (convertAxisValue v)"
    by (rule order_trans [OF _ r(1)]) simp
  moreover have "uint (convertAxisValue v) < 2 ^ 31"
    by (rule le_less_trans [OF r(2)]) simp
  ultimately have "signed_take_bit 31 (uint (convertAxisValue v)) = uint (convertAxisValue v)"
    by (rule signed_take_bit_int_eq_self)
  then have "sint (convertAxisValue v) = uint (convertAxisValue v)"
    by (simp add: sint_uint)
  with r have "0 \<le> sint (convertAxisValue v)" "sint (convertAxisValue v) \<le> 0xFF0F"
    by simp_all
  with bits ne eq nf show ?thesis by blast
qed

subsection \<open>The axis examples\<close>

text \<open>
  Claim C1, as the specification states it, gives the wide value \<open>0x8010\<close> and the X
  output \<open>-32752\<close> for the raw axis byte \<open>0x80\<close>. The code gives neither: here is a
  recognized report whose left X byte is \<open>0x80\<close>.
\<close>

theorem axis_examples_counterexample:
  "convertAxisValue 0x80 \<noteq> 0x8010 \<and>
   map_option ThumbLX (decode [0x03, 0x08, 0x00, 0x00, 0x80, 0x00, 0x00, 0x00, 0x00, 0x00])
     \<noteq> Some (- 32752)"
proof -
  have "uint (convertAxisValue 0x80) = 0x8000"
    by (simp add: uint_convertAxisValue)
  then have 1: "convertAxisValue 0x80 \<noteq> 0x8010"
    by (auto simp: word_uint_eq_iff)
  obtain r' where p: "ParseReport [0x03, 0x08, 0x00, 0x00, 0x80, 0x00, 0x00, 0x00, 0x00, 0x00] zero_report
       = Some (None, normalized [0x03, 0x08, 0x00, 0x00, 0x80, 0x00, 0x00, 0x00, 0x00, 0x00], r')"
    and t: "GetLeftThumb r' = (axis_x (bias 0x80), axis_y (bias 0x00))"
    using ParseReport_fields [of "[0x03, 0x08, 0x00, 0x00, 0x80, 0x00, 0x00, 0x00, 0x00, 0x00]" zero_report]
    by auto
  have "ThumbLX r' = spec_axis_x 0x80"
    using axis_x_spec [of "0x80"] by (simp add: ThumbLX_def t)
  also have "\<dots> = 0"
    by (simp add: spec_axis_x_def spec_bias_def spec_wide_eq)
  finally have "ThumbLX r' = 0" .
  with decode_recognized [OF p] 1 show ?thesis by simp
qed

text \<open>
  Claim C1, amended. In a recognized report, the raw axis byte \<open>0x00\<close> widens to
  \<open>0x0000\<close> and gives the X output \<open>-32768\<close>; the raw axis byte \<open>0x80\<close> is left alone
  by the bias step, widens to \<open>0x8000\<close> and gives the X output 0. This holds for the
  left and for the right stick.
\<close>

theorem axis_examples:
  assumes "10 \<le> length data" "data ! 0 = 0x03"
  shows "convertAxisValue 0x00 = 0x0000 \<and> bias 0x80 = 0x80 \<and> convertAxisValue 0x80 = 0x8000 \<and>
    (\<exists>r'. ParseReport data report = Some (None, normalized data, r') \<and>
       (data ! 4 = 0x00 \<longrightarrow> ThumbLX r' = - 32768) \<and>
       (data ! 4 = 0x80 \<longrightarrow> ThumbLX r' = 0) \<and>
       (data ! 6 = 0x00 \<longrightarrow> ThumbRX r' = - 32768) \<and>
       (data ! 6 = 0x80 \<longrightarrow> ThumbRX r' = 0))"
proof -
  have u: "uint (convertAxisValue 0x00) = 0" "uint (convertAxisValue 0x80) = 0x8000"
    by (simp_all add: uint_convertAxisValue)
  have c: "convertAxisValue 0x00 = 0x0000" "convertAxisValue 0x80 = 0x8000"
    using u by (simp_all add: word_uint_eq_iff)
  have b: "bias 0x80 = 0x80" by (simp add: bias_def)
  have s: "spec_axis_x 0 = - 32768" "spec_axis_x 0x80 = 0"
    by (simp_all add: spec_axis_x_def spec_bias_def spec_wide_eq)
  obtain r' where p: "ParseReport data report = Some (None, normalized data, r')"
    and l: "GetLeftThumb r' = (axis_x (bias (data ! 4)), axis_y (bias (data ! 5)))"
    and r: "GetRightThumb r' = (axis_x (bias (data ! 6)), axis_y (bias (data ! 7)))"
    using ParseReport_fields [OF assms, of report] by blast
  have "ThumbLX r' = spec_axis_x (uint (data ! 4))" "ThumbRX r' = spec_axis_x (uint (data ! 6))"
    by (simp_all add: ThumbLX_def ThumbRX_def l r axis_x_spec)
  then have "(data ! 4 = 0x00 \<longrightarrow> ThumbLX r' = - 32768) \<and>
       (data ! 4 = 0x80 \<longrightarrow> ThumbLX r' = 0) \<and>
       (data ! 6 = 0x00 \<longrightarrow> ThumbRX r' = - 32768) \<and>
       (data ! 6 = 0x80 \<longrightarrow> ThumbRX r' = 0)"
    using s by auto
  with p b c show ?thesis by blast
qed

theorem axis_examples_witness:
  "map_option ThumbLX (decode [0x03, 0x08, 0x00, 0x00, 0x80, 0x00, 0x00, 0x00, 0x00, 0x00]) = Some 0 \<and>
   map_option ThumbRX (decode [0x03, 0x08, 0x00, 0x00, 0x80, 0x00, 0x00, 0x00, 0x00, 0x00])
     = Some (- 32768)"
  using axis_examples [of "[0x03, 0x08, 0x00, 0x00, 0x80, 0x00, 0x00, 0x00, 0x00, 0x00]" zero_report]
  by (auto simp: decode_def)

subsection \<open>The axis pipeline\<close>

text \<open>
  Claim C2. Every recognized report decodes, and its four axis values are the
  specification's pipeline applied to the four raw bytes: the bias step, the widening
  \<open>(v << 8) | ((v << 1) & 0xF)\<close> with its clamp, \<open>wide - 0x8000\<close> for X and
  \<open>-wide + 0x7FFF\<close> for Y, and a Y of \<open>-1\<close> snapped to 0; the left and the right stick
  go through the same pipeline.
\<close>

theorem axis_pipeline:
  assumes "10 \<le> length data" "data ! 0 = 0x03"
  shows "\<exists>r'. ParseReport data report = Some (None, normalized data, r') \<and>
     ThumbLX r' = spec_axis_x (uint (data ! 4)) \<and>
     ThumbLY r' = spec_axis_y (uint (data ! 5)) \<and>
     ThumbRX r' = spec_axis_x (uint (data ! 6)) \<and>
     ThumbRY r' = spec_axis_y (uint (data ! 7))"
proof -
  obtain r' where p: "ParseReport data report = Some (None, normalized data, r')"
    and l: "GetLeftThumb r' = (axis_x (bias (data ! 4)), axis_y (bias (data ! 5)))"
    and r: "GetRightThumb r' = (axis_x (bias (data ! 6)), axis_y (bias (data ! 7)))"
    using ParseReport_fields [OF assms, of report] by blast
  have "ThumbLX r' = spec_axis_x (uint (data ! 4))" "ThumbRX r' = spec_axis_x (uint (data ! 6))"
    by (simp_all add: ThumbLX_def ThumbRX_def l r axis_x_spec)
  moreover have "ThumbLY r' = spec_axis_y (uint (data ! 5))"
    "ThumbRY r' = spec_axis_y (uint (data ! 7))"
    by (simp_all add: ThumbLY_def ThumbRY_def l r axis_y_spec)
  ultimately show ?thesis using p by blast
qed

theorem axis_pipeline_witness:
  "map_option ThumbLX (decode [0x03, 0x08, 0x00, 0x00, 0x02, 0x80, 0x7F, 0xFF, 0x00, 0x00])
     = Some (spec_axis_x 2) \<and>
   map_option ThumbLY (decode [0x03, 0x08, 0x00, 0x00, 0x02, 0x80, 0x7F, 0xFF, 0x00, 0x00])
     = Some (spec_axis_y 0x80) \<and>
   map_option ThumbRX (decode [0x03, 0x08, 0x00, 0x00, 0x02, 0x80, 0x7F, 0xFF, 0x00, 0x00])
     = Some (spec_axis_x 0x7F) \<and>
   map_option ThumbRY (decode [0x03, 0x08, 0x00, 0x00, 0x02, 0x80, 0x7F, 0xFF, 0x00, 0x00])
     = Some (spec_axis_y 0xFF) \<and>
   spec_axis_x 2 = - 32510 \<and> spec_axis_y 0x80 = 0 \<and> spec_axis_x 0x7F = - 500 \<and>
   spec_axis_y 0xFF = - 32527"
proof -
  have "spec_axis_x 2 = - 32510 \<and> spec_axis_y 0x80 = 0 \<and> spec_axis_x 0x7F = - 500 \<and>
   spec_axis_y 0xFF = - 32527"
    by (simp add: spec_axis_x_def spec_axis_y_def spec_bias_def spec_wide_eq)
  then show ?thesis
  using axis_pipeline [of "[0x03, 0x08, 0x00, 0x00, 0x02, 0x80, 0x7F, 0xFF, 0x00, 0x00]" zero_report]
  by (auto simp: decode_def)
qed

subsection \<open>The D-pad\<close>

lemma pressed_zero_report [simp]: "\<not> pressed n zero_report"
  by (simp add: pressed_def GetButtons_def zero_report_def)

lemma pressed_common_buttons_zero:
  "pressed n (common_buttons b c zero_report) \<longleftrightarrow>
       n = Xbox360ControllerButtonA \<and> bit c 6
     \<or> n = Xbox360ControllerButtonB \<and> bit c 5
     \<or> n = Xbox360ControllerButtonX \<and> bit c 4
     \<or> n = Xbox360ControllerButtonY \<and> bit c 3
     \<or> n = Xbox360ControllerButtonLeftShoulder \<and> bit c 2
     \<or> n = Xbox360ControllerButtonRightShoulder \<and> bit c 1
     \<or> n = Xbox360ControllerButtonLeftThumb \<and> bit c 0
     \<or> n = Xbox360ControllerButtonRightThumb \<and> bit b 7
     \<or> n = Xbox360ControllerButtonBack \<and> bit b 6
     \<or> n = Xbox360ControllerButtonStart \<and> bit b 5
     \<or> n = Xbox360ControllerButtonGuide \<and> bit b 4"
  using bit_common_buttons [of b c zero_report n] pressed_zero_report [of n]
  unfolding pressed_def by simp

text \<open>
  Claim C4. Every recognized report decodes without an error, whatever its D-pad
  byte, and the four D-pad buttons of the decoded report are exactly the ones the
  table gives for that byte: code 0 is Up alone, 1 is Up and Right, 2 is Right alone,
  3 is Right and Down, 4 is Down alone, 5 is Down and Left, 6 is Left alone, 7 is Left
  and Up, and any other value sets none of the four.
\<close>

theorem dpad_table:
  assumes "10 \<le> length data" "data ! 0 = 0x03"
  shows "\<exists>r'. ParseReport data zero_report = Some (None, normalized data, r') \<and>
     pressed Xbox360ControllerButtonUp r' = (Xbox360ControllerButtonUp \<in> spec_dpad (data ! 1)) \<and>
     pressed Xbox360ControllerButtonDown r' = (Xbox360ControllerButtonDown \<in> spec_dpad (data ! 1)) \<and>
     pressed Xbox360ControllerButtonLeft r' = (Xbox360ControllerButtonLeft \<in> spec_dpad (data ! 1)) \<and>
     pressed Xbox360ControllerButtonRight r' = (Xbox360ControllerButtonRight \<in> spec_dpad (data ! 1))"
proof -
  let ?D = "{Xbox360ControllerButtonUp, Xbox360ControllerButtonDown,
            Xbox360ControllerButtonLeft, Xbox360ControllerButtonRight}"
  obtain r' where p: "ParseReport data zero_report = Some (None, normalized data, r')"
    and b: "\<And>n. pressed n r' \<longleftrightarrow>
        pressed n (common_buttons (data ! 2) (data ! 3) zero_report) \<or> n \<in> spec_dpad (data ! 1)"
    using ParseReport_fields [OF assms, of zero_report] by blast
  have c: "\<not> pressed s (common_buttons (data ! 2) (data ! 3) zero_report)" if "s \<in> ?D" for s
    using that unfolding pressed_common_buttons_zero by (auto simp: button_defs)
  have "pressed s r' = (s \<in> spec_dpad (data ! 1))" if "s \<in> ?D" for s
    using c [OF that] by (simp add: b)
  then have "pressed Xbox360ControllerButtonUp r' = (Xbox360ControllerButtonUp \<in> spec_dpad (data ! 1))"
    "pressed Xbox360ControllerButtonDown r' = (Xbox360ControllerButtonDown \<in> spec_dpad (data ! 1))"
    "pressed Xbox360ControllerButtonLeft r' = (Xbox360ControllerButtonLeft \<in> spec_dpad (data ! 1))"
    "pressed Xbox360ControllerButtonRight r' = (Xbox360ControllerButtonRight \<in> spec_dpad (data ! 1))"
    by simp_all
  with p show ?thesis by blast
qed

theorem dpad_table_witness:
  "map_option (pressed Xbox360ControllerButtonUp)
      (decode [0x03, 0x01, 0xFF, 0xFF, 0x00, 0x00, 0x00, 0x00, 0x00, 0x00]) = Some True \<and>
   map_option (pressed Xbox360ControllerButtonRight)
      (decode [0x03, 0x01, 0xFF, 0xFF, 0x00, 0x00, 0x00, 0x00, 0x00, 0x00]) = Some True \<and>
   map_option (pressed Xbox360ControllerButtonDown)
      (decode [0x03, 0x01, 0xFF, 0xFF, 0x00, 0x00, 0x00, 0x00, 0x00, 0x00]) = Some False \<and>
   map_option (pressed Xbox360ControllerButtonLeft)
      (decode [0x03, 0x01, 0xFF, 0xFF, 0x00, 0x00, 0x00, 0x00, 0x00, 0x00]) = Some False"
proof -
  let ?d = "[0x03, 0x01, 0xFF, 0xFF, 0x00, 0x00, 0x00, 0x00, 0x00, 0x00] :: byte list"
  have s: "spec_dpad (?d ! 1) = {Xbox360ControllerButtonUp, Xbox360ControllerButtonRight}"
    by (simp add: spec_dpad_def)
  obtain r' where p: "ParseReport ?d zero_report = Some (None, normalized ?d, r')"
    and u: "pressed Xbox360ControllerButtonUp r' = (Xbox360ControllerButtonUp \<in> spec_dpad (?d ! 1))"
    and d: "pressed Xbox360ControllerButtonDown r' = (Xbox360ControllerButtonDown \<in> spec_dpad (?d ! 1))"
    and l: "pressed Xbox360ControllerButtonLeft r' = (Xbox360ControllerButtonLeft \<in> spec_dpad (?d ! 1))"
    and r: "pressed Xbox360ControllerButtonRight r' = (Xbox360ControllerButtonRight \<in> spec_dpad (?d ! 1))"
    using dpad_table [of ?d] by auto
  have "pressed Xbox360ControllerButtonUp r'" "pressed Xbox360ControllerButtonRight r'"
    "\<not> pressed Xbox360ControllerButtonDown r'" "\<not> pressed Xbox360ControllerButtonLeft r'"
    unfolding u d l r s by (simp_all add: button_defs)
  with decode_recognized [OF p] show ?thesis by simp
qed

subsection \<open>A whole report\<close>

text \<open>
  Claim C5. The buffer \<open>[0x03, 0x00, 0x00, 0x00, 0x00, 0x00, 0x00, 0x00, 0x10, 0x20]\<close>
  decodes without an error to a report whose only button is D-pad Up (no face,
  shoulder or meta button, neither flag), whose two sticks have X at \<open>-32768\<close> and Y at
  the value of the Y rule on the byte \<open>0x00\<close> (which is 32767), and whose triggers are
  16 and 32.
\<close>

theorem end_to_end:
  "\<exists>r. ParseReport [0x03, 0x00, 0x00, 0x00, 0x00, 0x00, 0x00, 0x00, 0x10, 0x20] zero_report
         = Some (None, [0x03, 0x00, 0x00, 0x00, 0x00, 0x00, 0x00, 0x00, 0x10, 0x20], r) \<and>
       GetButtons r = push_bit Xbox360ControllerButtonUp 1 \<and>
       \<not> Assistant r \<and> \<not> Capture r \<and>
       ThumbLX r = - 32768 \<and> ThumbLY r = spec_axis_y 0x00 \<and>
       ThumbRX r = - 32768 \<and> ThumbRY r = spec_axis_y 0x00 \<and> spec_axis_y 0x00 = 32767 \<and>
       GetLeftTrigger r = 16 \<and> GetRightTrigger r = 32"
proof -
  let ?d = "[0x03, 0x00, 0x00, 0x00, 0x00, 0x00, 0x00, 0x00, 0x10, 0x20] :: byte list"
  obtain r where p: "ParseReport ?d zero_report = Some (None, normalized ?d, r)"
    and b: "\<And>n. pressed n r \<longleftrightarrow>
        pressed n (common_buttons (?d ! 2) (?d ! 3) zero_report) \<or> n \<in> spec_dpad (?d ! 1)"
    and f: "Assistant r = bit (?d ! 2) 1" "Capture r = bit (?d ! 2) 0"
    and l: "GetLeftThumb r = (axis_x (bias (?d ! 4)), axis_y (bias (?d ! 5)))"
    and rt: "GetRightThumb r = (axis_x (bias (?d ! 6)), axis_y (bias (?d ! 7)))"
    and t: "GetLeftTrigger r = ?d ! 8" "GetRightTrigger r = ?d ! 9"
    using ParseReport_fields [of ?d zero_report] by auto
  have n: "normalized ?d = ?d"
    by (simp add: normalized_def bias_def)
  have "\<And>n. bit (GetButtons r) n \<longleftrightarrow> n = 0"
    using b by (simp add: pressed_def [symmetric] pressed_common_buttons_zero spec_dpad_def button_defs)
  then have g: "GetButtons r = push_bit Xbox360ControllerButtonUp 1"
    by (simp add: bit_eq_iff bit_simps button_defs)
  have s: "spec_axis_x 0 = - 32768" "spec_axis_y 0 = 32767"
    by (simp_all add: spec_axis_x_def spec_axis_y_def spec_bias_def spec_wide_eq)
  have x: "ThumbLX r = - 32768" "ThumbRX r = - 32768"
    using axis_x_spec [of 0] by (simp_all add: ThumbLX_def ThumbRX_def l rt s)
  have y: "ThumbLY r = spec_axis_y 0" "ThumbRY r = spec_axis_y 0"
    using axis_y_spec [of 0] by (simp_all add: ThumbLY_def ThumbRY_def l rt)
  from p n g f x y s t show ?thesis by simp
qed

subsection \<open>The button bytes\<close>

lemma common_buttons_unused_bits:
  "common_buttons (b AND 0b11110011) (c AND 0b01111111) r = common_buttons b c r"
  by (simp add: common_buttons_def and.assoc)

lemma ParseReport_recognized_report:
  assumes "10 \<le> length data" "data ! 0 = 0x03"
  shows "ParseReport data report = Some (None, normalized data, recognized_report data report)"
  unfolding recognized_report_def using assms by (rule ParseReport_recognized)

lemma recognized_report_unused_bits:
  assumes "10 \<le> length data"
  shows "recognized_report (data[2 := data ! 2 AND 0b11110011, 3 := data ! 3 AND 0b01111111]) report
     = recognized_report data report" (is "recognized_report ?m report = _")
proof -
  have "?m ! 2 = data ! 2 AND 0b11110011" "?m ! 3 = data ! 3 AND 0b01111111"
    using assms by simp_all
  moreover have "?m ! 1 = data ! 1" "?m ! 4 = data ! 4" "?m ! 5 = data ! 5" "?m ! 6 = data ! 6"
    "?m ! 7 = data ! 7" "?m ! 8 = data ! 8" "?m ! 9 = data ! 9"
    by simp_all
  ultimately show ?thesis
    unfolding recognized_report_def by (simp only: common_buttons_unused_bits)
qed

text \<open>
  Claim C3, as the specification states it, puts A at bit 6 of byte 2 and
  RightThumbClick at bit 7 of byte 3, and Assistant and Capture at bits 3 and 2 of
  byte 2. In the code, bit 6 of byte 2 is Back and not A, bit 7 of byte 3 sets no
  button at all, and bit 3 of byte 2 does not set Assistant.
\<close>

theorem button_bits_counterexample:
  "map_option (pressed Xbox360ControllerButtonA)
      (decode [0x03, 0x08, 0b01000000, 0x00, 0x00, 0x00, 0x00, 0x00, 0x00, 0x00]) = Some False \<and>
   map_option (pressed Xbox360ControllerButtonBack)
      (decode [0x03, 0x08, 0b01000000, 0x00, 0x00, 0x00, 0x00, 0x00, 0x00, 0x00]) = Some True \<and>
   map_option (pressed Xbox360ControllerButtonRightThumb)
      (decode [0x03, 0x08, 0x00, 0b10000000, 0x00, 0x00, 0x00, 0x00, 0x00, 0x00]) = Some False \<and>
   map_option GetButtons
      (decode [0x03, 0x08, 0x00, 0b10000000, 0x00, 0x00, 0x00, 0x00, 0x00, 0x00]) = Some 0 \<and>
   map_option Assistant
      (decode [0x03, 0x08, 0b00001000, 0x00, 0x00, 0x00, 0x00, 0x00, 0x00, 0x00]) = Some False"
proof -
  let ?d1 = "[0x03, 0x08, 0b01000000, 0x00, 0x00, 0x00, 0x00, 0x00, 0x00, 0x00] :: byte list"
  let ?d2 = "[0x03, 0x08, 0x00, 0b10000000, 0x00, 0x00, 0x00, 0x00, 0x00, 0x00] :: byte list"
  let ?d3 = "[0x03, 0x08, 0b00001000, 0x00, 0x00, 0x00, 0x00, 0x00, 0x00, 0x00] :: byte list"
  obtain r1 where p1: "ParseReport ?d1 zero_report = Some (None, normalized ?d1, r1)"
    and b1: "\<And>n. pressed n r1 \<longleftrightarrow>
        pressed n (common_buttons (?d1 ! 2) (?d1 ! 3) zero_report) \<or> n \<in> spec_dpad (?d1 ! 1)"
    using ParseReport_fields [of ?d1 zero_report] by auto
  obtain r2 where p2: "ParseReport ?d2 zero_report = Some (None, normalized ?d2, r2)"
    and b2: "\<And>n. pressed n r2 \<longleftrightarrow>
        pressed n (common_buttons (?d2 ! 2) (?d2 ! 3) zero_report) \<or> n \<in> spec_dpad (?d2 ! 1)"
    using ParseReport_fields [of ?d2 zero_report] by auto
  obtain r3 where p3: "ParseReport ?d3 zero_report = Some (None, normalized ?d3, r3)"
    and f3: "Assistant r3 = bit (?d3 ! 2) 1"
    using ParseReport_fields [of ?d3 zero_report] by auto
  have "\<not> pressed Xbox360ControllerButtonA r1" "pressed Xbox360ControllerButtonBack r1"
    unfolding b1 pressed_common_buttons_zero by (simp_all add: button_defs spec_dpad_def)
  moreover have n2: "\<not> pressed n r2" for n
    unfolding b2 pressed_common_buttons_zero by (simp add: spec_dpad_def)
  then have "GetButtons r2 = 0"
    by (simp add: pressed_def bit_eq_iff)
  moreover have "\<not> Assistant r3"
    by (simp add: f3)
  ultimately show ?thesis
    using decode_recognized [OF p1] decode_recognized [OF p2] decode_recognized [OF p3] n2
    by simp
qed

text \<open>
  Claim C3, amended. In a recognized report decoded into a fresh report, byte 2
  carries, from its most to its least significant bit, RightThumbClick, Back, Start,
  Guide, two unused bits, Assistant and Capture; byte 3 carries one unused bit, then
  A, B, X, Y, LeftShoulder, RightShoulder and LeftThumbClick. So bit 6 of byte 3 is A
  and bit 7 of byte 2 is RightThumbClick. The unused bits are not read: clearing them
  gives the same report.
\<close>

theorem button_bits:
  assumes "10 \<le> length data" "data ! 0 = 0x03"
  shows "\<exists>r'. ParseReport data zero_report = Some (None, normalized data, r') \<and>
     pressed Xbox360ControllerButtonRightThumb r' = bit (data ! 2) 7 \<and>
     pressed Xbox360ControllerButtonBack r' = bit (data ! 2) 6 \<and>
     pressed Xbox360ControllerButtonStart r' = bit (data ! 2) 5 \<and>
     pressed Xbox360ControllerButtonGuide r' = bit (data ! 2) 4 \<and>
     Assistant r' = bit (data ! 2) 1 \<and>
     Capture r' = bit (data ! 2) 0 \<and>
     pressed Xbox360ControllerButtonA r' = bit (data ! 3) 6 \<and>
     pressed Xbox360ControllerButtonB r' = bit (data ! 3) 5 \<and>
     pressed Xbox360ControllerButtonX r' = bit (data ! 3) 4 \<and>
     pressed Xbox360ControllerButtonY r' = bit (data ! 3) 3 \<and>
     pressed Xbox360ControllerButtonLeftShoulder r' = bit (data ! 3) 2 \<and>
     pressed Xbox360ControllerButtonRightShoulder r' = bit (data ! 3) 1 \<and>
     pressed Xbox360ControllerButtonLeftThumb r' = bit (data ! 3) 0 \<and>
     (\<exists>d'. ParseReport (data[2 := data ! 2 AND 0b11110011, 3 := data ! 3 AND 0b01111111])
              zero_report = Some (None, d', r'))"
proof -
  let ?b = "data ! 2" and ?c = "data ! 3"
  obtain r' where p: "ParseReport data zero_report = Some (None, normalized data, r')"
    and b: "\<And>n. pressed n r' \<longleftrightarrow>
        pressed n (common_buttons ?b ?c zero_report) \<or> n \<in> spec_dpad (data ! 1)"
    and f: "Assistant r' = bit ?b 1" "Capture r' = bit ?b 0"
    using ParseReport_fields [OF assms, of zero_report] by blast
  have r': "r' = recognized_report data zero_report"
    using p ParseReport_recognized_report [OF assms, of zero_report] by simp
  have nd: "n \<notin> spec_dpad a" if "4 \<le> n" for n a
    using that by (auto simp: spec_dpad_def button_defs split: if_splits)
  have c: "pressed n r' = pressed n (common_buttons ?b ?c zero_report)" if "4 \<le> n" for n
    using nd [OF that] by (simp add: b)
  have 1: "pressed Xbox360ControllerButtonRightThumb r' = bit ?b 7"
    unfolding Xbox360ControllerButtonRightThumb_def using c [of 7]
    by (simp add: pressed_common_buttons_zero button_defs)
  have 2: "pressed Xbox360ControllerButtonBack r' = bit ?b 6"
    unfolding Xbox360ControllerButtonBack_def using c [of 5]
    by (simp add: pressed_common_buttons_zero button_defs)
  have 3: "pressed Xbox360ControllerButtonStart r' = bit ?b 5"
    unfolding Xbox360ControllerButtonStart_def using c [of 4]
    by (simp add: pressed_common_buttons_zero button_defs)
  have 4: "pressed Xbox360ControllerButtonGuide r' = bit ?b 4"
    unfolding Xbox360ControllerButtonGuide_def using c [of 10]
    by (simp add: pressed_common_buttons_zero button_defs)
  have 5: "pressed Xbox360ControllerButtonA r' = bit ?c 6"
    unfolding Xbox360ControllerButtonA_def using c [of 12]
    by (simp add: pressed_common_buttons_zero button_defs)
  have 6: "pressed Xbox360ControllerButtonB r' = bit ?c 5"
    unfolding Xbox360ControllerButtonB_def using c [of 13]
    by (simp add: pressed_common_buttons_zero button_defs)
  have 7: "pressed Xbox360ControllerButtonX r' = bit ?c 4"
    unfolding Xbox360ControllerButtonX_def using c [of 14]
    by (simp add: pressed_common_buttons_zero button_defs)
  have 8: "pressed Xbox360ControllerButtonY r' = bit ?c 3"
    unfolding Xbox360ControllerButtonY_def using c [of 15]
    by (simp add: pressed_common_buttons_zero button_defs)
  have 9: "pressed Xbox360ControllerButtonLeftShoulder r' = bit ?c 2"
    unfolding Xbox360ControllerButtonLeftShoulder_def using c [of 8]
    by (simp add: pressed_common_buttons_zero button_defs)
  have 10: "pressed Xbox360ControllerButtonRightShoulder r' = bit ?c 1"
    unfolding Xbox360ControllerButtonRightShoulder_def using c [of 9]
    by (simp add: pressed_common_buttons_zero button_defs)
  have 11: "pressed Xbox360ControllerButtonLeftThumb r' = bit ?c 0"
    unfolding Xbox360ControllerButtonLeftThumb_def using c [of 6]
    by (simp add: pressed_common_buttons_zero button_defs)
  let ?m = "data[2 := ?b AND 0b11110011, 3 := ?c AND 0b01111111]"
  have "ParseReport ?m zero_report = Some (None, normalized ?m, recognized_report ?m zero_report)"
    by (rule ParseReport_recognized_report) (use assms in simp_all)
  then have "ParseReport ?m zero_report = Some (None, normalized ?m, r')"
    by (simp only: recognized_report_unused_bits [OF assms(1)] r')
  then have u: "\<exists>d'. ParseReport ?m zero_report = Some (None, d', r')" ..
  show ?thesis
    by (intro exI [of _ r'] conjI p f 1 2 3 4 5 6 7 8 9 10 11 u)
qed

theorem button_bits_witness:
  "map_option (pressed Xbox360ControllerButtonA)
      (decode [0x03, 0x08, 0b10100011, 0b01000101, 0x00, 0x00, 0x00, 0x00, 0x00, 0x00]) = Some True \<and>
   map_option (pressed Xbox360ControllerButtonB)
      (decode [0x03, 0x08, 0b10100011, 0b01000101, 0x00, 0x00, 0x00, 0x00, 0x00, 0x00]) = Some False \<and>
   map_option (pressed Xbox360ControllerButtonRightThumb)
      (decode [0x03, 0x08, 0b10100011, 0b01000101, 0x00, 0x00, 0x00, 0x00, 0x00, 0x00]) = Some True \<and>
   map_option (pressed Xbox360ControllerButtonBack)
      (decode [0x03, 0x08, 0b10100011, 0b01000101, 0x00, 0x00, 0x00, 0x00, 0x00, 0x00]) = Some False \<and>
   map_option Assistant
      (decode [0x03, 0x08, 0b10100011, 0b01000101, 0x00, 0x00, 0x00, 0x00, 0x00, 0x00]) = Some True"
proof -
  let ?d = "[0x03, 0x08, 0b10100011, 0b01000101, 0x00, 0x00, 0x00, 0x00, 0x00, 0x00] :: byte list"
  obtain r' where p: "ParseReport ?d zero_report = Some (None, normalized ?d, r')"
    and a: "pressed Xbox360ControllerButtonA r' = bit (?d ! 3) 6"
    and b: "pressed Xbox360ControllerButtonB r' = bit (?d ! 3) 5"
    and t: "pressed Xbox360ControllerButtonRightThumb r' = bit (?d ! 2) 7"
    and k: "pressed Xbox360ControllerButtonBack r' = bit (?d ! 2) 6"
    and s: "Assistant r' = bit (?d ! 2) 1"
    using button_bits [of ?d] by auto
  have "pressed Xbox360ControllerButtonA r'" "\<not> pressed Xbox360ControllerButtonB r'"
    "pressed Xbox360ControllerButtonRightThumb r'" "\<not> pressed Xbox360ControllerButtonBack r'"
    "Assistant r'"
    unfolding a b t k s by simp_all
  with decode_recognized [OF p] show ?thesis by simp
qed

subsection \<open>Totality and the two errors\<close>

text \<open>
  Claim C6. \<open>ParseReport\<close> returns on every input and never panics. On the empty
  input it returns the error for an empty report; on a non-empty input whose first
  byte is not \<open>0x03\<close> or that is shorter than 10 bytes it returns the unknown-format
  error, whose message ends with the base64 encoding of the raw bytes, from which the
  bytes can be read back (no other buffer gives the same message); in both cases the
  buffer and the report are left as they were. It returns no error exactly on the
  buffers with first byte \<open>0x03\<close> and at least 10 bytes.
\<close>

theorem ParseReport_total:
  "ParseReport data report \<noteq> None \<and>
   (data = [] \<longrightarrow>
      ParseReport data report = Some (Some (ErrorNew ''cannot parse empty report''), data, report)) \<and>
   (data \<noteq> [] \<and> (data ! 0 \<noteq> 0x03 \<or> length data < 10) \<longrightarrow>
      ParseReport data report =
        Some (Some (Errorf (''unknown report format; raw report was '' @ EncodeToString data)),
              data, report)) \<and>
   (\<forall>data'. ''unknown report format; raw report was '' @ EncodeToString data' =
             ''unknown report format; raw report was '' @ EncodeToString data \<longrightarrow> data' = data) \<and>
   ((\<exists>d' r'. ParseReport data report = Some (None, d', r')) \<longleftrightarrow>
      data \<noteq> [] \<and> data ! 0 = 0x03 \<and> 10 \<le> length data)"
proof -
  have inj: "\<forall>data'. ''unknown report format; raw report was '' @ EncodeToString data' =
             ''unknown report format; raw report was '' @ EncodeToString data \<longrightarrow> data' = data"
    by (auto dest: EncodeToString_inj)
  have "ParseReport data report \<noteq> None \<and>
   (data = [] \<longrightarrow>
      ParseReport data report = Some (Some (ErrorNew ''cannot parse empty report''), data, report)) \<and>
   (data \<noteq> [] \<and> (data ! 0 \<noteq> 0x03 \<or> length data < 10) \<longrightarrow>
      ParseReport data report =
        Some (Some (Errorf (''unknown report format; raw report was '' @ EncodeToString data)),
              data, report)) \<and>
   ((\<exists>d' r'. ParseReport data report = Some (None, d', r')) \<longleftrightarrow>
      data \<noteq> [] \<and> data ! 0 = 0x03 \<and> 10 \<le> length data)"
  proof (cases "data = []")
    case True
    then show ?thesis by (simp add: ParseReport_empty)
  next
    case ne: False
    show ?thesis
    proof (cases "data ! 0 = 0x03 \<and> 10 \<le> length data")
      case True
      then have "ParseReport data report =
          Some (None, normalized data, recognized_report data report)"
        by (simp add: ParseReport_recognized_report)
      with True ne show ?thesis by auto
    next
      case False
      then have "data ! 0 \<noteq> 0x03 \<or> length data < 10" by auto
      with ne have "ParseReport data report =
          Some (Some (Errorf (''unknown report format; raw report was '' @ EncodeToString data)),
                data, report)"
        by (rule ParseReport_unknown)
      with False ne show ?thesis by auto
    qed
  qed
  with inj show ?thesis by blast
qed

theorem ParseReport_total_witness:
  "ParseReport [] zero_report = Some (Some (ErrorNew ''cannot parse empty report''), [], zero_report) \<and>
   ParseReport [0x01, 0x02, 0x03] zero_report =
     Some (Some (Errorf ''unknown report format; raw report was AQID''), [0x01, 0x02, 0x03], zero_report) \<and>
   ParseReport [0x03, 0xFF, 0xFE, 0xFD, 0xFC] zero_report =
     Some (Some (Errorf ''unknown report format; raw report was A//+/fw=''),
           [0x03, 0xFF, 0xFE, 0xFD, 0xFC], zero_report) \<and>
   (\<exists>d' r'. ParseReport [0x03, 0x00, 0x00, 0x00, 0x00, 0x00, 0x00, 0x00, 0x10, 0x20] zero_report
      = Some (None, d', r'))"
proof -
  have e: "EncodeToString [0x01, 0x02, 0x03] = ''AQID''"
    "EncodeToString [0x03, 0xFF, 0xFE, 0xFD, 0xFC] = ''A//+/fw=''"
    by code_simp+
  show ?thesis
    using ParseReport_total [of "[]" zero_report]
      ParseReport_total [of "[0x01, 0x02, 0x03]" zero_report]
      ParseReport_total [of "[0x03, 0xFF, 0xFE, 0xFD, 0xFC]" zero_report]
      ParseReport_total [of "[0x03, 0x00, 0x00, 0x00, 0x00, 0x00, 0x00, 0x00, 0x10, 0x20]" zero_report]
    by (simp add: e del: EncodeToString.simps)
qed

subsection \<open>The buffer is written to\<close>

lemma bias_cases:
  "bias v = (if 0x01 \<le> v \<and> v \<le> 0x7F then v - 1 else v)"
proof -
  have "0 < v \<longleftrightarrow> 1 \<le> v"
    unfolding word_less_def word_le_def by auto
  then show ?thesis by (auto simp: bias_def)
qed

text \<open>
  Claim C9. \<open>ParseReport\<close> writes to the buffer it is given: when it returns from a
  recognized report, every byte at an index from 4 to 7 whose value lies in
  \<open>0x01..0x7F\<close> has been decremented, every other byte is as before and the length is
  unchanged. So decoding the buffer again can give other stick values: there is a
  buffer whose second decoding has a left X different from the first.
\<close>

theorem ParseReport_mutates_buffer:
  assumes "10 \<le> length data" "data ! 0 = 0x03"
  shows "(\<exists>d' r'. ParseReport data report = Some (None, d', r') \<and>
           length d' = length data \<and>
           (\<forall>i<length data. d' ! i =
              (if 4 \<le> i \<and> i < 8 \<and> 0x01 \<le> data ! i \<and> data ! i \<le> 0x7F
               then data ! i - 1 else data ! i))) \<and>
         (\<exists>d r1 d1 r2 d2.
            ParseReport d zero_report = Some (None, d1, r1) \<and>
            ParseReport d1 zero_report = Some (None, d2, r2) \<and>
            ThumbLX r1 \<noteq> ThumbLX r2)"
proof -
  have p: "ParseReport data report = Some (None, normalized data, recognized_report data report)"
    using assms by (rule ParseReport_recognized_report)
  have n: "normalized data ! i =
      (if 4 \<le> i \<and> i < 8 \<and> 0x01 \<le> data ! i \<and> data ! i \<le> 0x7F
       then data ! i - 1 else data ! i)" if "i < length data" for i
    using that by (simp add: nth_normalized bias_cases)
  have 1: "\<exists>d' r'. ParseReport data report = Some (None, d', r') \<and>
           length d' = length data \<and>
           (\<forall>i<length data. d' ! i =
              (if 4 \<le> i \<and> i < 8 \<and> 0x01 \<le> data ! i \<and> data ! i \<le> 0x7F
               then data ! i - 1 else data ! i))"
    using p n by (intro exI [of _ "normalized data"] exI [of _ "recognized_report data report"]) simp
  let ?d = "[0x03, 0x08, 0x00, 0x00, 0x02, 0x00, 0x00, 0x00, 0x00, 0x00] :: byte list"
  let ?d1 = "[0x03, 0x08, 0x00, 0x00, 0x01, 0x00, 0x00, 0x00, 0x00, 0x00] :: byte list"
  let ?d2 = "[0x03, 0x08, 0x00, 0x00, 0x00, 0x00, 0x00, 0x00, 0x00, 0x00] :: byte list"
  have nd: "normalized ?d = ?d1" "normalized ?d1 = ?d2"
    by (simp_all add: normalized_def bias_def)
  obtain r1 where p1: "ParseReport ?d zero_report = Some (None, ?d1, r1)"
    and l1: "GetLeftThumb r1 = (axis_x (bias (?d ! 4)), axis_y (bias (?d ! 5)))"
    using ParseReport_fields [of ?d zero_report] unfolding nd by auto
  obtain r2 where p2: "ParseReport ?d1 zero_report = Some (None, ?d2, r2)"
    and l2: "GetLeftThumb r2 = (axis_x (bias (?d1 ! 4)), axis_y (bias (?d1 ! 5)))"
    using ParseReport_fields [of ?d1 zero_report] unfolding nd by auto
  have x1: "ThumbLX r1 = spec_axis_x 2"
    using axis_x_spec [of 2] by (simp add: ThumbLX_def l1)
  have x2: "ThumbLX r2 = spec_axis_x 1"
    using axis_x_spec [of 1] by (simp add: ThumbLX_def l2)
  have "spec_axis_x 2 = - 32510" "spec_axis_x 1 = - 32768"
    by (simp_all add: spec_axis_x_def spec_bias_def spec_wide_eq)
  then have "ThumbLX r1 \<noteq> ThumbLX r2"
    using x1 x2 by simp
  with p1 p2 have 2: "\<exists>d r1 d1 r2 d2.
            ParseReport d zero_report = Some (None, d1, r1) \<and>
            ParseReport d1 zero_report = Some (None, d2, r2) \<and>
            ThumbLX r1 \<noteq> ThumbLX r2"
    by blast
  from 1 2 show ?thesis ..
qed

theorem ParseReport_mutates_buffer_witness:
  "(\<exists>r'. ParseReport [0x03, 0x08, 0x00, 0x00, 0x02, 0x7F, 0x80, 0x00, 0x01, 0x7F] zero_report
      = Some (None, [0x03, 0x08, 0x00, 0x00, 0x01, 0x7E, 0x80, 0x00, 0x01, 0x7F], r'))"
proof -
  let ?d = "[0x03, 0x08, 0x00, 0x00, 0x02, 0x7F, 0x80, 0x00, 0x01, 0x7F] :: byte list"
  obtain d' r' where p: "ParseReport ?d zero_report = Some (None, d', r')"
    and l: "length d' = length ?d"
    and n: "\<forall>i<length ?d. d' ! i =
              (if 4 \<le> i \<and> i < 8 \<and> 0x01 \<le> ?d ! i \<and> ?d ! i \<le> 0x7F
               then ?d ! i - 1 else ?d ! i)"
    using ParseReport_mutates_buffer [of ?d zero_report] by auto
  have "d' = [0x03, 0x08, 0x00, 0x00, 0x01, 0x7E, 0x80, 0x00, 0x01, 0x7F]"
  proof (rule nth_equalityI)
    show "length d' = length [0x03, 0x08, 0x00, 0x00, 0x01, 0x7E, 0x80, 0x00, 0x01, 0x7F :: byte]"
      using l by simp
  next
    fix i assume "i < length d'"
    then have i: "i < 10" using l by simp
    then have "i = 0 \<or> i = 1 \<or> i = 2 \<or> i = 3 \<or> i = 4 \<or> i = 5 \<or> i = 6 \<or> i = 7 \<or> i = 8 \<or> i = 9"
      by arith
    moreover from n i have "d' ! i =
              (if 4 \<le> i \<and> i < 8 \<and> 0x01 \<le> ?d ! i \<and> ?d ! i \<le> 0x7F
               then ?d ! i - 1 else ?d ! i)" by simp
    ultimately show "d' ! i = [0x03, 0x08, 0x00, 0x00, 0x01, 0x7E, 0x80, 0x00, 0x01, 0x7F] ! i"
      by auto
  qed
  with p show ?thesis by blast
qed

section \<open>Properties of the controller\<close>

subsection \<open>The four ways \<open>GetReport\<close> returns\<close>

lemma GetReport_no_device:
  assumes "device c = None"
  shows "GetReport c rx =
    Some ((zero_report, Some (case err c of None \<Rightarrow> RetryError | Some e \<Rightarrow> e)), c, [])"
  using assms by (cases "err c") (simp_all add: GetReport_def)

lemma GetReport_closed:
  assumes "device c = Some d"
  shows "GetReport c ChClosed =
    Some ((zero_report, Some RetryError), c\<lparr>device := None\<rparr>,
          [ReadChRecv (Path (info d)), ReadErrorCall (Path (info d)), CloseCall (Path (info d))])"
  using assms by (simp add: GetReport_def)

lemma GetReport_undecodable:
  assumes "device c = Some d" "\<not> (buf \<noteq> [] \<and> buf ! 0 = 0x03 \<and> 10 \<le> length buf)"
  shows "GetReport c (Recv buf) =
    Some ((zero_report, Some RetryError), c, [ReadChRecv (Path (info d))])"
proof (cases "buf = []")
  case True
  then show ?thesis using assms(1) by (simp add: GetReport_def ParseReport_empty)
next
  case False
  with assms(2) have "buf ! 0 \<noteq> 0x03 \<or> length buf < 10" by auto
  with False have "ParseReport buf zero_report =
    Some (Some (Errorf (''unknown report format; raw report was '' @ EncodeToString buf)),
          buf, zero_report)"
    by (rule ParseReport_unknown)
  then show ?thesis using assms(1) by (simp add: GetReport_def)
qed

lemma GetReport_decodable:
  assumes "device c = Some d" "10 \<le> length buf" "buf ! 0 = 0x03"
  shows "GetReport c (Recv buf) =
    Some ((recognized_report buf zero_report, None), c, [ReadChRecv (Path (info d))])"
  using assms by (simp add: GetReport_def ParseReport_recognized_report)

lemma step_faulted:
  assumes "faulted e s"
  shows "step ev s = (s, fault_outcome e ev)"
proof (cases ev)
  case (Tick devices derr oerr)
  then show ?thesis using assms by (simp add: step_def tick_def faulted_def fault_outcome_def)
next
  case (Read rx)
  from assms have "device (controller s) = None" "err (controller s) = Some e"
    by (simp_all add: faulted_def)
  then have "GetReport (controller s) rx = Some ((zero_report, Some e), controller s, [])"
    by (simp add: GetReport_no_device)
  then show ?thesis using Read by (simp add: step_def fault_outcome_def)
qed

lemma run_faulted:
  assumes "faulted e s"
  shows "run evs s = (s, map (fault_outcome e) evs)"
  using assms by (induction evs) (simp_all add: step_faulted)

lemma run_reads_no_device:
  assumes "device (controller s) = None"
  shows "run (map Read rxs) s =
    (s, replicate (length rxs)
          (ReadResult (zero_report,
             Some (case err (controller s) of None \<Rightarrow> RetryError | Some e \<Rightarrow> e)) []))"
proof (induction rxs)
  case Nil
  show ?case by simp
next
  case (Cons rx rxs)
  have "step (Read rx) s =
    (s, ReadResult (zero_report,
             Some (case err (controller s) of None \<Rightarrow> RetryError | Some e \<Rightarrow> e)) [])"
    using assms by (simp add: step_def GetReport_no_device)
  with Cons show ?case by simp
qed

subsection \<open>Reading after the channel has closed\<close>

text \<open>
  Claim C7, as the specification states it, has \<open>GetReport\<close> return a Disconnected
  error when the read channel closes, distinct from the Retryable error of a decode
  failure, and has every later read return Disconnected without device I/O. In the
  code the two cases return the same \<open>RetryError\<close>, and a later read does device I/O
  and returns a report once a tick has opened the device again.
\<close>

theorem GetReport_outcomes_counterexample:
  "GetReport \<lparr>device = Some \<lparr>info = stadia\<rparr>, ticker = True, err = None\<rparr> ChClosed =
     Some ((zero_report, Some RetryError), \<lparr>device = None, ticker = True, err = None\<rparr>,
           [ReadChRecv (Path stadia), ReadErrorCall (Path stadia), CloseCall (Path stadia)]) \<and>
   GetReport \<lparr>device = Some \<lparr>info = stadia\<rparr>, ticker = True, err = None\<rparr> (Recv []) =
     Some ((zero_report, Some RetryError),
           \<lparr>device = Some \<lparr>info = stadia\<rparr>, ticker = True, err = None\<rparr>,
           [ReadChRecv (Path stadia)]) \<and>
   run [Tick [stadia] None None, Read ChClosed, Read ChClosed, Tick [stadia] None None,
        Read (Recv [0x03, 0x00, 0x00, 0x00, 0x00, 0x00, 0x00, 0x00, 0x10, 0x20])] new_system =
     (\<lparr>controller = \<lparr>device = Some \<lparr>info = stadia\<rparr>, ticker = True, err = None\<rparr>,
        scanning = True\<rparr>,
      [Ticked [DevicesCall, OpenCall (Path stadia)],
       ReadResult (zero_report, Some RetryError)
         [ReadChRecv (Path stadia), ReadErrorCall (Path stadia), CloseCall (Path stadia)],
       ReadResult (zero_report, Some RetryError) [],
       Ticked [DevicesCall, OpenCall (Path stadia)],
       ReadResult
         (recognized_report [0x03, 0x00, 0x00, 0x00, 0x00, 0x00, 0x00, 0x00, 0x10, 0x20] zero_report,
          None)
         [ReadChRecv (Path stadia)]])"
proof -
  let ?c = "\<lparr>device = Some \<lparr>info = stadia\<rparr>, ticker = True, err = None\<rparr>"
  let ?n = "\<lparr>device = None, ticker = True, err = None\<rparr>"
  let ?buf = "[0x03, 0x00, 0x00, 0x00, 0x00, 0x00, 0x00, 0x00, 0x10, 0x20] :: byte list"
  have 1: "GetReport ?c ChClosed =
     Some ((zero_report, Some RetryError), ?n,
           [ReadChRecv (Path stadia), ReadErrorCall (Path stadia), CloseCall (Path stadia)])"
    using GetReport_closed [of ?c "\<lparr>info = stadia\<rparr>"] by simp
  have 2: "GetReport ?c (Recv []) =
     Some ((zero_report, Some RetryError), ?c, [ReadChRecv (Path stadia)])"
    using GetReport_undecodable [of ?c "\<lparr>info = stadia\<rparr>" "[]"] by simp
  have 3: "GetReport ?n rx = Some ((zero_report, Some RetryError), ?n, [])" for rx
    using GetReport_no_device [of ?n rx] by simp
  have 4: "GetReport ?c (Recv ?buf) =
     Some ((recognized_report ?buf zero_report, None), ?c, [ReadChRecv (Path stadia)])"
    using GetReport_decodable [of ?c "\<lparr>info = stadia\<rparr>" ?buf] by simp
  have t: "tick [stadia] None None \<lparr>controller = ?n, scanning = True\<rparr> =
      (\<lparr>controller = ?c, scanning = True\<rparr>, [DevicesCall, OpenCall (Path stadia)])"
    by (simp add: tick_def stadia_def stadiaControllerVid_def stadiaControllerPid_def)
  have "run [Tick [stadia] None None, Read ChClosed, Read ChClosed, Tick [stadia] None None,
        Read (Recv ?buf)] \<lparr>controller = ?n, scanning = True\<rparr> =
     (\<lparr>controller = ?c, scanning = True\<rparr>,
      [Ticked [DevicesCall, OpenCall (Path stadia)],
       ReadResult (zero_report, Some RetryError)
         [ReadChRecv (Path stadia), ReadErrorCall (Path stadia), CloseCall (Path stadia)],
       ReadResult (zero_report, Some RetryError) [],
       Ticked [DevicesCall, OpenCall (Path stadia)],
       ReadResult (recognized_report ?buf zero_report, None) [ReadChRecv (Path stadia)]])"
    by (simp add: step_def t 1 2 3 4)
  with 1 2 show ?thesis
    by (simp only: new_system_def NewStadiaController_def)
qed

text \<open>
  Claim C7, amended. When the read channel closes, \<open>GetReport\<close> asks the device for its
  read error, closes it, clears the controller's device pointer and returns
  \<open>RetryError\<close>, the error it also returns on a decode failure; there is no separate
  Disconnected error. A decode failure on a live device returns \<open>RetryError\<close> and leaves
  the controller as it was, the device still installed. While no device is installed,
  a read does no device I/O, leaves the controller as it was and returns the recorded
  error, or \<open>RetryError\<close> when none is recorded; so after a close with no recorded
  error, every later read returns \<open>RetryError\<close> for as long as no tick intervenes.
\<close>

theorem GetReport_outcomes:
  "(device c = Some d \<longrightarrow>
      GetReport c ChClosed =
        Some ((zero_report, Some RetryError), c\<lparr>device := None\<rparr>,
              [ReadChRecv (Path (info d)), ReadErrorCall (Path (info d)),
               CloseCall (Path (info d))])) \<and>
   (device c = Some d \<and> \<not> (buf \<noteq> [] \<and> buf ! 0 = 0x03 \<and> 10 \<le> length buf) \<longrightarrow>
      GetReport c (Recv buf) =
        Some ((zero_report, Some RetryError), c, [ReadChRecv (Path (info d))])) \<and>
   (device c = None \<longrightarrow>
      GetReport c rx =
        Some ((zero_report, Some (case err c of None \<Rightarrow> RetryError | Some e \<Rightarrow> e)), c, [])) \<and>
   (device c = Some d \<and> err c = None \<longrightarrow>
      run (map Read rxs) \<lparr>controller = c\<lparr>device := None\<rparr>, scanning = sc\<rparr> =
        (\<lparr>controller = c\<lparr>device := None\<rparr>, scanning = sc\<rparr>,
         replicate (length rxs) (ReadResult (zero_report, Some RetryError) [])))"
proof -
  have "run (map Read rxs) \<lparr>controller = c\<lparr>device := None\<rparr>, scanning = sc\<rparr> =
        (\<lparr>controller = c\<lparr>device := None\<rparr>, scanning = sc\<rparr>,
         replicate (length rxs) (ReadResult (zero_report, Some RetryError) []))"
    if "err c = None"
    using run_reads_no_device [of "\<lparr>controller = c\<lparr>device := None\<rparr>, scanning = sc\<rparr>" rxs] that
    by simp
  then show ?thesis
    by (simp add: GetReport_closed GetReport_undecodable GetReport_no_device)
qed

theorem GetReport_outcomes_witness:
  "GetReport \<lparr>device = Some \<lparr>info = stadia\<rparr>, ticker = True, err = None\<rparr> ChClosed =
     Some ((zero_report, Some RetryError), \<lparr>device = None, ticker = True, err = None\<rparr>,
           [ReadChRecv (Path stadia), ReadErrorCall (Path stadia), CloseCall (Path stadia)]) \<and>
   GetReport \<lparr>device = Some \<lparr>info = stadia\<rparr>, ticker = True, err = None\<rparr> (Recv [0x01, 0x02]) =
     Some ((zero_report, Some RetryError),
           \<lparr>device = Some \<lparr>info = stadia\<rparr>, ticker = True, err = None\<rparr>,
           [ReadChRecv (Path stadia)]) \<and>
   GetReport \<lparr>device = None, ticker = True, err = Some (Errno 5)\<rparr> ChClosed =
     Some ((zero_report, Some (Errno 5)), \<lparr>device = None, ticker = True, err = Some (Errno 5)\<rparr>, []) \<and>
   run (map Read [ChClosed, Recv [], ChClosed])
       \<lparr>controller = \<lparr>device = None, ticker = True, err = None\<rparr>, scanning = True\<rparr> =
     (\<lparr>controller = \<lparr>device = None, ticker = True, err = None\<rparr>, scanning = True\<rparr>,
      [ReadResult (zero_report, Some RetryError) [], ReadResult (zero_report, Some RetryError) [],
       ReadResult (zero_report, Some RetryError) []])"
  using GetReport_outcomes [of "\<lparr>device = Some \<lparr>info = stadia\<rparr>, ticker = True, err = None\<rparr>"
      "\<lparr>info = stadia\<rparr>" "[0x01, 0x02]" ChClosed "[ChClosed, Recv [], ChClosed]" True]
    GetReport_outcomes [of "\<lparr>device = None, ticker = True, err = Some (Errno 5)\<rparr>"
      "\<lparr>info = stadia\<rparr>" "[]" ChClosed "[]" True]
  by (simp add: numeral_3_eq_3)

subsection \<open>A failed enumeration\<close>

text \<open>
  Claim C8. When \<open>Devices()\<close> fails in a tick, the error is recorded in the controller
  and the goroutine leaves its loop. From then on nothing changes the system: every
  later tick does nothing (\<open>Devices()\<close> is not called again), no device is ever
  installed, and every later read returns the recorded error, with no device I/O,
  instead of \<open>RetryError\<close>. Events are taken one at a time; \<open>Devices()\<close> is called in a
  tick exactly when the loop is running, the ticker is not stopped, no device is
  installed and no error is recorded.
\<close>

theorem enumeration_fault_is_permanent:
  assumes "scanning s" "ticker (controller s)"
    and "device (controller s) = None" "err (controller s) = None"
  shows "\<exists>s1. tick devices (Some e) oerr s = (s1, [DevicesCall]) \<and>
           err (controller s1) = Some e \<and> device (controller s1) = None \<and> \<not> scanning s1 \<and>
           (\<forall>evs. run evs s1 = (s1, map (fault_outcome e) evs))"
proof -
  let ?s1 = "s\<lparr>controller := (controller s)\<lparr>err := Some e\<rparr>, scanning := False\<rparr>"
  have t: "tick devices (Some e) oerr s = (?s1, [DevicesCall])"
    using assms by (simp add: tick_def)
  have f: "faulted e ?s1"
    using assms by (simp add: faulted_def)
  then have "\<forall>evs. run evs ?s1 = (?s1, map (fault_outcome e) evs)"
    by (simp add: run_faulted)
  with t f show ?thesis
    unfolding faulted_def by blast
qed

theorem enumeration_fault_is_permanent_witness:
  "run [Tick [stadia] (Some (Errno 5)) None, Read ChClosed, Tick [stadia] None None,
        Read (Recv [0x03, 0x00, 0x00, 0x00, 0x00, 0x00, 0x00, 0x00, 0x10, 0x20])] new_system
   = (\<lparr>controller = \<lparr>device = None, ticker = True, err = Some (Errno 5)\<rparr>, scanning = False\<rparr>,
      [Ticked [DevicesCall],
       ReadResult (zero_report, Some (Errno 5)) [],
       Ticked [],
       ReadResult (zero_report, Some (Errno 5)) []])"
proof -
  obtain s1 where t: "tick [stadia] (Some (Errno 5)) None new_system = (s1, [DevicesCall])"
    and e: "err (controller s1) = Some (Errno 5)" "device (controller s1) = None" "\<not> scanning s1"
    and r: "\<And>evs. run evs s1 = (s1, map (fault_outcome (Errno 5)) evs)"
    using enumeration_fault_is_permanent [of new_system "[stadia]" "Errno 5" None]
    by (auto simp: new_system_def NewStadiaController_def)
  have "s1 = \<lparr>controller = \<lparr>device = None, ticker = True, err = Some (Errno 5)\<rparr>, scanning = False\<rparr>"
    using t by (simp add: tick_def new_system_def NewStadiaController_def)
  then show ?thesis
    using r [of "[Read ChClosed, Tick [stadia] None None,
        Read (Recv [0x03, 0x00, 0x00, 0x00, 0x00, 0x00, 0x00, 0x00, 0x10, 0x20])]"] t
    by (simp add: step_def fault_outcome_def)
qed

end
